theory Spec2Isabelle
  imports Complex_Main "HOL-Library.Char_ord" "HOL-Library.List_Lexorder"
begin

section \<open>F1 driver tracker: the telemetry synchronisation and playback core\<close>

text \<open>
  A shallow embedding of \<^verbatim>\<open>src/f1_driver_tracker.py\<close>. The module keeps its state in
  module-level variables; here they are the fields of one record that every operation takes and
  returns. Python and numpy floats are modelled as \<^typ>\<open>real\<close>: arithmetic is exact, there is no
  NaN or infinity, and there is no rounding but in one place: the product that
  \<open>slider_update\<close> truncates to a frame number is rounded as double-precision arithmetic
  rounds it, since the integer depends on it. Python exceptions are values of the type \<open>error\<close>.
  The plotting artists (dots, labels, legend, button captions) are not modelled; the values the
  code writes into the time, speed and gap texts are.
\<close>

subsection \<open>Configuration\<close>

definition NUM_DRIVERS :: nat where
  "NUM_DRIVERS = 10"

definition FPS :: real where
  "FPS = 90"

subsection \<open>Data\<close>

datatype error = ValueError string | ZeroDivisionError | IndexError

text \<open>One row of a telemetry frame: \<^verbatim>\<open>Time\<close> in seconds, position, speed in km/h.\<close>

record sample =
  Time :: real
  X :: real
  Y :: real
  Speed :: real

text \<open>
  What \<^verbatim>\<open>row.get_telemetry()\<close> does for a lap: it raises, it returns \<^verbatim>\<open>None\<close>, or it
  returns a frame of samples (empty when the list is empty).
\<close>

datatype telemetry = Raises | NoTelemetry | Telemetry "sample list"

text \<open>
  One row of \<^verbatim>\<open>session.laps\<close>. \<open>lap_LapTime\<close> is \<open>None\<close> for a missing lap time
  (\<^verbatim>\<open>NaT\<close>). \<open>driver_color\<close> and \<open>team_color\<close> are the results of the two colour lookups of
  the plotting library for this row, \<open>None\<close> when the lookup raises.
\<close>

record lap =
  lap_Driver :: string
  lap_Team :: string
  lap_LapNumber :: nat
  lap_LapTime :: "real option"
  get_telemetry :: telemetry
  driver_color :: "string option"
  team_color :: "string option"

text \<open>The dictionary \<^verbatim>\<open>data\<close> stored per driver (lines 124 to 132).\<close>

record driver_data =
  Driver :: string
  Color :: string
  X_interp :: "real list"
  Y_interp :: "real list"
  Speed_interp :: "real list"
  LapTime :: real
  CumulativeDistance :: "real list"

text \<open>
  The text of the gap display. The code formats a string; the model keeps the name and the
  time gap that the string is built from.
\<close>

datatype gap_display = SideBySide | AheadBy string real

text \<open>
  The module-level variables (lines 41 to 48 and 258), the value and the \<^verbatim>\<open>eventson\<close> switch
  of the progress slider, and the contents of the three texts.
\<close>

record globals =
  all_interpolated_data :: "driver_data list"
  current_drivers_data :: "driver_data list"
  current_frame :: int
  all_lap_telemetry :: "string \<times> nat \<rightharpoonup> driver_data"
  total_seconds :: real
  times :: "real list"
  is_paused :: bool
  slider_active :: bool
  ghost_mode_on :: bool
  slider_val :: real
  eventson :: bool
  time_text :: real
  speed_text :: real
  gap_text :: "gap_display option"
  gap_visible :: bool

definition init_globals :: globals where
  "init_globals =
     \<lparr> all_interpolated_data = [], current_drivers_data = [], current_frame = 0,
       all_lap_telemetry = Map.empty, total_seconds = 0, times = [],
       is_paused = False, slider_active = False, ghost_mode_on = False,
       slider_val = 0, eventson = True, time_text = 0, speed_text = 0,
       gap_text = None, gap_visible = False \<rparr>"

subsection \<open>The library routines the loader calls\<close>

text \<open>
  \<^verbatim>\<open>Timedelta.total_seconds()\<close> of pandas 2, for a duration of \<open>t\<close> seconds: the sum of the days,
  seconds and microseconds of the duration, so the digits below one microsecond are dropped
  (towards minus infinity). The accessor \<^verbatim>\<open>.dt.total_seconds()\<close> of line 79 keeps them.
\<close>

definition timedelta_total_seconds :: "real \<Rightarrow> real" where
  "timedelta_total_seconds t = real_of_int \<lfloor>t * 10 ^ 6\<rfloor> / 10 ^ 6"

text \<open>
  \<^verbatim>\<open>np.arange(0, stop, step)\<close> for a positive step: \<open>\<lceil>stop / step\<rceil>\<close> values (none when that
  is not positive), the \<open>i\<close>-th being \<open>i * step\<close>.
\<close>

definition np_arange :: "real \<Rightarrow> real \<Rightarrow> real list" where
  "np_arange stop step = map (\<lambda>i. real i * step) [0 ..< nat \<lceil>stop / step\<rceil>]"

text \<open>
  \<^verbatim>\<open>np.interp(x, xp, fp)\<close> for increasing sample points \<open>xp\<close>. A query above the last sample
  point gives the last value, one below the first gives the first value. Otherwise numpy
  searches the index \<open>j\<close> with \<open>xp[j] \<le> x < xp[j+1]\<close>; at the last index, or where \<open>xp[j] = x\<close>,
  the result is \<open>fp[j]\<close>, else the point on the line through the two neighbours. On increasing
  \<open>xp\<close> the scan below finds the same index as numpy's binary search.
\<close>

fun interp_scan :: "real \<Rightarrow> real list \<Rightarrow> real list \<Rightarrow> real" where
  "interp_scan x (t0 # t1 # ts) (v0 # v1 # vs) =
     (if x < t1
      then (if t0 = x then v0 else (v1 - v0) / (t1 - t0) * (x - t0) + v0)
      else interp_scan x (t1 # ts) (v1 # vs))"
| "interp_scan x ts (v # vs) = v"
| "interp_scan x ts [] = 0"

definition interp1 :: "real list \<Rightarrow> real list \<Rightarrow> real \<Rightarrow> real" where
  "interp1 xp fp x =
     (if x > last xp then last fp
      else if x < hd xp then hd fp
      else interp_scan x xp fp)"

definition np_interp :: "real list \<Rightarrow> real list \<Rightarrow> real list \<Rightarrow> error + real list" where
  "np_interp xs xp fp =
     (if xp = [] then Inl (ValueError ''array of sample points is empty'')
      else if length fp \<noteq> length xp
      then Inl (ValueError ''fp and xp are not of the same length.'')
      else Inr (map (interp1 xp fp) xs))"

subsection \<open>Loading and synchronisation\<close>

text \<open>Lines 78 to 83: the three channels of one telemetry frame on the common time index.\<close>

definition interpolate_telemetry ::
  "sample list \<Rightarrow> real list \<Rightarrow> error + (real list \<times> real list \<times> real list)" where
  "interpolate_telemetry tel time_index =
     (let tel_seconds = map Time tel in
      case np_interp time_index tel_seconds (map X tel) of
        Inl e \<Rightarrow> Inl e
      | Inr x_interp \<Rightarrow>
          (case np_interp time_index tel_seconds (map Y tel) of
             Inl e \<Rightarrow> Inl e
           | Inr y_interp \<Rightarrow>
               (case np_interp time_index tel_seconds (map Speed tel) of
                  Inl e \<Rightarrow> Inl e
                | Inr speed_interp \<Rightarrow> Inr (x_interp, y_interp, speed_interp))))"

text \<open>
  Lines 118 to 122. The array starts as zeros of the length of \<open>x_interp\<close>; the loop runs over
  \<open>i = 1, \<dots>, len(x_interp) - 1\<close> and writes entry \<open>i\<close> from entry \<open>i - 1\<close>. Reading
  \<open>y_interp\<close> beyond its end raises \<^verbatim>\<open>IndexError\<close>.
\<close>

definition distance_step ::
  "real list \<Rightarrow> real list \<Rightarrow> nat \<Rightarrow> real list \<Rightarrow> real list" where
  "distance_step x_interp y_interp i cumulative_distances =
     (let dx = x_interp ! i - x_interp ! (i - 1);
          dy = y_interp ! i - y_interp ! (i - 1)
      in cumulative_distances
           [i := cumulative_distances ! (i - 1) + sqrt (dx\<^sup>2 + dy\<^sup>2)])"

definition cumulative_distances_of :: "real list \<Rightarrow> real list \<Rightarrow> error + real list" where
  "cumulative_distances_of x_interp y_interp =
     (if 1 < length x_interp \<and> length y_interp < length x_interp then Inl IndexError
      else Inr (fold (distance_step x_interp y_interp) [1 ..< length x_interp]
                  (replicate (length x_interp) 0)))"

text \<open>Lines 109 to 115: the driver's colour, else the team's colour, else white.\<close>

definition resolve_color :: "lap \<Rightarrow> string" where
  "resolve_color row =
     (case driver_color row of
        Some c \<Rightarrow> c
      | None \<Rightarrow> (case team_color row of Some c \<Rightarrow> c | None \<Rightarrow> ''#FFFFFF''))"

text \<open>
  Lines 63 to 70. Laps without a lap time are dropped. \<^verbatim>\<open>groupby('Driver')\<close> visits the
  drivers in sorted order and \<^verbatim>\<open>idxmin\<close> takes the first lap of least lap time of each; the
  rows are then sorted by lap time and the first \<open>NUM_DRIVERS\<close> are kept. Rows of equal lap
  time are kept here in the order of their drivers; pandas does not fix that order.
\<close>

definition valid_laps :: "lap list \<Rightarrow> lap list" where
  "valid_laps laps = filter (\<lambda>l. lap_LapTime l \<noteq> None) laps"

definition lap_seconds :: "lap \<Rightarrow> real" where
  "lap_seconds l = (case lap_LapTime l of Some t \<Rightarrow> t | None \<Rightarrow> 0)"

definition fastest_laps :: "lap list \<Rightarrow> lap list" where
  "fastest_laps laps =
     sort_key lap_seconds
       (map (\<lambda>d. arg_min_list lap_seconds (filter (\<lambda>l. lap_Driver l = d) laps))
            (sort (remdups (map lap_Driver laps))))"

definition drivers_to_track :: "lap list \<Rightarrow> lap list" where
  "drivers_to_track laps = take NUM_DRIVERS (fastest_laps (valid_laps laps))"

text \<open>
  Lines 86 to 94: the rows whose telemetry is there and not empty, each with its telemetry.
  A row whose \<^verbatim>\<open>get_telemetry\<close> raises is skipped with a message, one whose telemetry is
  \<^verbatim>\<open>None\<close> or empty is skipped silently.
\<close>

fun prefetch :: "lap list \<Rightarrow> (lap \<times> sample list) list" where
  "prefetch [] = []"
| "prefetch (row # rows) =
     (case get_telemetry row of
        Raises \<Rightarrow> prefetch rows
      | NoTelemetry \<Rightarrow> prefetch rows
      | Telemetry tel \<Rightarrow> (if tel \<noteq> [] then (row, tel) # prefetch rows else prefetch rows))"

definition max_time :: "sample list \<Rightarrow> real" where
  "max_time tel = Max (set (map Time tel))"

text \<open>
  Lines 104 to 136: one pass of the second loop, for one row and its telemetry. The key of
  \<open>all_lap_telemetry\<close>, a string made of the driver and the lap number, is kept as the pair
  of the two.
\<close>

definition make_data :: "real list \<Rightarrow> lap \<Rightarrow> sample list \<Rightarrow> error + driver_data" where
  "make_data time_index row tel =
     (case interpolate_telemetry tel time_index of
        Inl e \<Rightarrow> Inl e
      | Inr (x_interp, y_interp, speed_interp) \<Rightarrow>
          (case cumulative_distances_of x_interp y_interp of
             Inl e \<Rightarrow> Inl e
           | Inr cumulative_distances \<Rightarrow>
               Inr \<lparr> Driver = lap_Driver row, Color = resolve_color row,
                     X_interp = x_interp, Y_interp = y_interp, Speed_interp = speed_interp,
                     LapTime = lap_seconds row,
                     CumulativeDistance = cumulative_distances \<rparr>))"

fun store_all :: "globals \<Rightarrow> (lap \<times> sample list) list \<Rightarrow> error + globals" where
  "store_all g [] = Inr g"
| "store_all g ((row, tel) # rest) =
     (case make_data (times g) row tel of
        Inl e \<Rightarrow> Inl e
      | Inr data \<Rightarrow>
          store_all
            (g\<lparr> all_interpolated_data := all_interpolated_data g @ [data],
                all_lap_telemetry :=
                  (all_lap_telemetry g)((lap_Driver row, lap_LapNumber row) \<mapsto> data) \<rparr>)
            rest)"

text \<open>Lines 54 to 143.\<close>

definition load_and_synchronize_data :: "globals \<Rightarrow> lap list \<Rightarrow> error + globals" where
  "load_and_synchronize_data g session_laps =
     (if valid_laps session_laps = []
      then Inl (ValueError ''No valid laps found in session data.'')
      else
        let temp_raw_telemetry_list = prefetch (drivers_to_track session_laps);
            max_time_list = map (\<lambda>(row, tel). max_time tel) temp_raw_telemetry_list
        in if max_time_list = []
           then Inl (ValueError ''No valid telemetry data found for the top drivers.'')
           else
             let secs = timedelta_total_seconds (Max (set max_time_list));
                 g1 = g\<lparr> total_seconds := secs, times := np_arange secs (1 / FPS) \<rparr>
             in case store_all g1 temp_raw_telemetry_list of
                  Inl e \<Rightarrow> Inl e
                | Inr g2 \<Rightarrow>
                    if all_interpolated_data g2 = []
                    then Inl (ValueError ''No driver data was successfully loaded.'')
                    else Inr (g2\<lparr> current_drivers_data := all_interpolated_data g2 \<rparr>))"

subsection \<open>Double-precision rounding\<close>

text \<open>
  One arithmetic operation on Python floats gives the double nearest to the exact result, a tie
  going to the double whose last bit is 0. A double other than 0 is an integer of at most 53
  bits times a power of two; \<open>exponent x\<close> is the power of two at or below \<open>|x|\<close>. The
  bounds of the exponent range (overflow, subnormal numbers) are left out: the numbers of this
  program are far from them.
\<close>

definition round_even :: "real \<Rightarrow> int" where
  "round_even y =
     (let f = \<lfloor>y\<rfloor>; r = y - of_int f
      in if r < 1 / 2 then f else if 1 / 2 < r then f + 1 else if even f then f else f + 1)"

definition exponent :: "real \<Rightarrow> int" where
  "exponent x = \<lfloor>log 2 \<bar>x\<bar>\<rfloor>"

definition double :: "real \<Rightarrow> real" where
  "double x =
     (if x = 0 then 0
      else of_int (round_even (x / 2 powi (exponent x - 52))) * 2 powi (exponent x - 52))"

subsection \<open>Widget callbacks\<close>

text \<open>Python's \<^verbatim>\<open>int\<close> of a float drops the fraction, towards zero.\<close>

definition py_int :: "real \<Rightarrow> int" where
  "py_int v = (if 0 \<le> v then \<lfloor>v\<rfloor> else \<lceil>v\<rceil>)"

text \<open>
  Lines 323 to 329. In \<^verbatim>\<open>(val / 100) * (len(times) - 1)\<close> the quotient and the product are
  floats, each rounded; the integer \<^verbatim>\<open>len(times) - 1\<close> becomes a float without rounding as long
  as it is below \<open>2\<^sup>5\<^sup>3\<close>.
\<close>

definition slider_update :: "globals \<Rightarrow> real \<Rightarrow> globals" where
  "slider_update g val =
     (let g1 = g\<lparr> slider_active := True \<rparr>;
          g2 = g1\<lparr> current_frame :=
                     py_int (double (double (val / 100)
                                      * real_of_int (int (length (times g1)) - 1))) \<rparr>
      in g2\<lparr> current_frame :=
               max 0 (min (current_frame g2) (int (length (times g2)) - 1)) \<rparr>)"

text \<open>
  \<^verbatim>\<open>Slider.set_val\<close> of the plotting library stores the value and, when \<^verbatim>\<open>eventson\<close> is
  set, calls the functions registered with \<^verbatim>\<open>on_changed\<close>; line 331 registers
  \<open>slider_update\<close> and nothing else.
\<close>

definition set_val :: "globals \<Rightarrow> real \<Rightarrow> globals" where
  "set_val g val =
     (let g1 = g\<lparr> slider_val := val \<rparr>
      in if eventson g1 then slider_update g1 val else g1)"

text \<open>Lines 308 to 313.\<close>

definition reset_callback :: "globals \<Rightarrow> globals" where
  "reset_callback g = set_val (g\<lparr> current_frame := 0, slider_active := False \<rparr>) 0"

text \<open>Lines 293 to 297.\<close>

definition pause_callback :: "globals \<Rightarrow> globals" where
  "pause_callback g = g\<lparr> is_paused := \<not> is_paused g \<rparr>"

text \<open>Lines 218 to 250, without the artists: the frame count starts again.\<close>

definition reset_plot_objects :: "globals \<Rightarrow> globals" where
  "reset_plot_objects g = g\<lparr> current_frame := 0 \<rparr>"

text \<open>Lines 260 to 282.\<close>

definition ghost_mode_callback :: "globals \<Rightarrow> globals" where
  "ghost_mode_callback g =
     (let g1 = g\<lparr> ghost_mode_on := \<not> ghost_mode_on g \<rparr>
      in if ghost_mode_on g1
         then (if 2 \<le> length (all_interpolated_data g1)
               then reset_plot_objects
                      (g1\<lparr> current_drivers_data := take 2 (all_interpolated_data g1),
                           gap_visible := True \<rparr>)
               else g1\<lparr> ghost_mode_on := False \<rparr>)
         else reset_plot_objects
                (g1\<lparr> current_drivers_data := all_interpolated_data g1,
                     gap_visible := False \<rparr>))"

subsection \<open>The frame update\<close>

text \<open>
  Lines 378 to 397, for one driver. The frame is not negative when the loop runs (line 363),
  so it is a natural number here. Only the length of \<open>X_interp\<close> is tested; reading one of the
  other arrays beyond its end raises \<^verbatim>\<open>IndexError\<close>. The code builds one dot and one label
  per record of \<open>current_drivers_data\<close> whenever that list changes, so the loop over the three
  zipped lists visits every record.
\<close>

definition position_step ::
  "nat \<Rightarrow> driver_data \<Rightarrow> real \<times> real list \<Rightarrow> error + (real \<times> real list)" where
  "position_step cf data acc =
     (case acc of (max_speed, driver_cumulative_distances) \<Rightarrow>
        if cf < length (X_interp data)
        then (if cf < length (Y_interp data) \<and> cf < length (Speed_interp data)
                   \<and> cf < length (CumulativeDistance data)
              then Inr (max max_speed (Speed_interp data ! cf),
                        driver_cumulative_distances @ [CumulativeDistance data ! cf])
              else Inl IndexError)
        else Inr (max_speed, driver_cumulative_distances @ [0]))"

fun positions ::
  "nat \<Rightarrow> driver_data list \<Rightarrow> real \<times> real list \<Rightarrow> error + (real \<times> real list)" where
  "positions cf [] acc = Inr acc"
| "positions cf (data # rest) acc =
     (case position_step cf data acc of
        Inl e \<Rightarrow> Inl e
      | Inr acc' \<Rightarrow> positions cf rest acc')"

text \<open>Lines 414 to 421: the divisor of the time gap, in metres per second.\<close>

definition avg_speed_mps_of :: "nat \<Rightarrow> driver_data \<Rightarrow> driver_data \<Rightarrow> real \<Rightarrow> real" where
  "avg_speed_mps_of cf d1 d2 max_speed =
     (if cf < length (Speed_interp d1) \<and> cf < length (Speed_interp d2)
      then (let speed1 = Speed_interp d1 ! cf;
                speed2 = Speed_interp d2 ! cf;
                avg_speed_kmh = (speed1 + speed2) / 2
            in if avg_speed_kmh > 0 then avg_speed_kmh / (36 / 10) else 1)
      else (if max_speed > 0 then max_speed / (36 / 10) else 1))"

text \<open>Line 423.\<close>

definition time_gap_of :: "real \<Rightarrow> real \<Rightarrow> real" where
  "time_gap_of distance_gap avg_speed_mps =
     (if avg_speed_mps > 0 then \<bar>distance_gap\<bar> / avg_speed_mps else 0)"

text \<open>Lines 406 to 431, for the two drivers of the ghost view.\<close>

definition ghost_gap ::
  "nat \<Rightarrow> driver_data \<Rightarrow> driver_data \<Rightarrow> real \<Rightarrow> real list \<Rightarrow> gap_display" where
  "ghost_gap cf d1 d2 max_speed driver_cumulative_distances =
     (let distance_gap = driver_cumulative_distances ! 0 - driver_cumulative_distances ! 1;
          time_gap = time_gap_of distance_gap (avg_speed_mps_of cf d1 d2 max_speed)
      in if \<bar>distance_gap\<bar> < 1 then SideBySide
         else if distance_gap > 0 then AheadBy (Driver d1) time_gap
         else AheadBy (Driver d2) time_gap)"

text \<open>
  Lines 348 to 435. \<^verbatim>\<open>frame % len(times)\<close> raises \<^verbatim>\<open>ZeroDivisionError\<close> on an empty
  timeline. The slider is moved with its events switched off.
\<close>

definition update :: "globals \<Rightarrow> int \<Rightarrow> error + globals" where
  "update g frame =
     (if is_paused g then Inr g
      else if \<not> slider_active g \<and> times g = [] then Inl ZeroDivisionError
      else
        let g1 = (if \<not> slider_active g
                  then g\<lparr> current_frame := frame mod int (length (times g)) \<rparr>
                  else g\<lparr> slider_active := False \<rparr>);
            g2 = g1\<lparr> current_frame :=
                       max 0 (min (current_frame g1) (int (length (times g1)) - 1)) \<rparr>;
            progress_percentage =
              (if length (times g2) > 1
               then real_of_int (current_frame g2)
                      / real_of_int (int (length (times g2)) - 1) * 100
               else 0);
            g3 = (set_val (g2\<lparr> eventson := False \<rparr>) progress_percentage)
                   \<lparr> eventson := True \<rparr>;
            cf = nat (current_frame g3)
        in case positions cf (current_drivers_data g3) (0, []) of
             Inl e \<Rightarrow> Inl e
           | Inr (max_speed, driver_cumulative_distances) \<Rightarrow>
               let current_time = (if cf < length (times g3) then times g3 ! cf else 0);
                   g4 = g3\<lparr> time_text := current_time, speed_text := max_speed \<rparr>
               in Inr (if ghost_mode_on g4 \<and> length (current_drivers_data g4) = 2
                          \<and> length driver_cumulative_distances = 2
                       then g4\<lparr> gap_text :=
                                  Some (ghost_gap cf (current_drivers_data g4 ! 0)
                                          (current_drivers_data g4 ! 1)
                                          max_speed driver_cumulative_distances) \<rparr>
                       else g4))"

text \<open>The animation calls \<open>update\<close> once per frame; an exception ends the run.\<close>

fun ticks :: "globals \<Rightarrow> int list \<Rightarrow> error + globals" where
  "ticks g [] = Inr g"
| "ticks g (frame # frames) =
     (case update g frame of
        Inl e \<Rightarrow> Inl e
      | Inr g' \<Rightarrow> ticks g' frames)"

text \<open>
  The gap that \<open>update\<close> displays at frame \<open>cf\<close> when the ghost view holds the records \<open>a\<close>
  and \<open>b\<close>, in this order.
\<close>

definition gap :: "driver_data \<Rightarrow> driver_data \<Rightarrow> nat \<Rightarrow> error + gap_display" where
  "gap a b cf =
     (case positions cf [a, b] (0, []) of
        Inl e \<Rightarrow> Inl e
      | Inr (max_speed, driver_cumulative_distances) \<Rightarrow>
          Inr (ghost_gap cf a b max_speed driver_cumulative_distances))"

text \<open>A record whose four arrays have one length, as the loader builds them.\<close>

definition aligned :: "driver_data \<Rightarrow> bool" where
  "aligned d \<longleftrightarrow>
     length (Y_interp d) = length (X_interp d)
     \<and> length (Speed_interp d) = length (X_interp d)
     \<and> length (CumulativeDistance d) = length (X_interp d)"

text \<open>
  The cumulative distance that line 392 or line 395 puts into the list for a record at frame
  \<open>cf\<close>.
\<close>

definition frame_distance :: "driver_data \<Rightarrow> nat \<Rightarrow> real" where
  "frame_distance d cf =
     (if cf < length (X_interp d) then CumulativeDistance d ! cf else 0)"

subsection \<open>Sample data\<close>

text \<open>
  A record over three frames that moves \<open>v\<close> metres per frame along the x axis at 36 km/h, and
  a playback state over the timeline of three hundredths of a second with two such records.
\<close>

definition demo_record :: "string \<Rightarrow> real \<Rightarrow> driver_data" where
  "demo_record name v =
     \<lparr> Driver = name, Color = ''#FFFFFF'',
       X_interp = [0, v, 2 * v], Y_interp = [0, 0, 0], Speed_interp = [36, 36, 36],
       LapTime = 70, CumulativeDistance = [0, v, 2 * v] \<rparr>"

definition demo_playback :: globals where
  "demo_playback =
     init_globals
       \<lparr> all_interpolated_data := [demo_record ''VER'' 10, demo_record ''ALO'' 5],
         current_drivers_data := [demo_record ''VER'' 10, demo_record ''ALO'' 5],
         total_seconds := 3 / 100,
         times := np_arange (3 / 100) (1 / FPS) \<rparr>"

subsection \<open>Notions the statements use\<close>

text \<open>
  A row passes the test of line 89 when fetching its telemetry does not raise and gives a frame
  that is neither \<^verbatim>\<open>None\<close> nor empty.
\<close>

definition usable :: "lap \<Rightarrow> bool" where
  "usable row = (case get_telemetry row of Telemetry tel \<Rightarrow> tel \<noteq> [] | _ \<Rightarrow> False)"

text \<open>The summand of line 122: the length of the step from position \<open>i - 1\<close> to position \<open>i\<close>.\<close>

definition seg :: "real list \<Rightarrow> real list \<Rightarrow> nat \<Rightarrow> real" where
  "seg x y i = sqrt ((x ! i - x ! (i - 1))\<^sup>2 + (y ! i - y ! (i - 1))\<^sup>2)"

subsection \<open>Sample sessions\<close>

text \<open>
  A telemetry frame of two samples, a forty-fifth of a second apart, and a session of seven
  laps: two laps of one driver, one lap without a lap time, one lap whose telemetry cannot be
  fetched. A second session has one lap whose telemetry is a single sample at time 0.
\<close>

definition demo_tel :: "real \<Rightarrow> sample list" where
  "demo_tel v =
     [\<lparr> Time = 0, X = 0, Y = 0, Speed = 100 \<rparr>,
      \<lparr> Time = 1 / 45, X = 3 * v, Y = 4 * v, Speed = 120 \<rparr>]"

definition demo_lap :: "string \<Rightarrow> real option \<Rightarrow> telemetry \<Rightarrow> lap" where
  "demo_lap name t tel =
     \<lparr> lap_Driver = name, lap_Team = ''Team'', lap_LapNumber = 12, lap_LapTime = t,
       get_telemetry = tel, driver_color = None, team_color = None \<rparr>"

definition demo_laps :: "lap list" where
  "demo_laps =
     [demo_lap ''SAI'' (Some 75) (Telemetry (demo_tel 4)),
      demo_lap ''VER'' (Some 71) (Telemetry (demo_tel 1)),
      demo_lap ''VER'' (Some 76) NoTelemetry,
      demo_lap ''HAM'' None (Telemetry (demo_tel 5)),
      demo_lap ''LEC'' (Some 73) Raises,
      demo_lap ''ALO'' (Some 72) (Telemetry (demo_tel 2)),
      demo_lap ''OCO'' (Some 74) (Telemetry (demo_tel 3))]"

definition zero_laps :: "lap list" where
  "zero_laps =
     [demo_lap ''VER'' (Some 71) (Telemetry [\<lparr> Time = 0, X = 0, Y = 0, Speed = 0 \<rparr>])]"

section \<open>Double-precision rounding\<close>

lemma round_even_of_int [simp]: "round_even (of_int k) = k"
  by (simp add: round_even_def)

lemma round_even_mono: "x \<le> y \<Longrightarrow> round_even x \<le> round_even y"
proof -
  assume xy: "x \<le> y"
  have fl: "\<lfloor>x\<rfloor> \<le> \<lfloor>y\<rfloor>" using xy by (rule floor_mono)
  show ?thesis
  proof (cases "\<lfloor>x\<rfloor> = \<lfloor>y\<rfloor>")
    case True
    then have "x - of_int \<lfloor>x\<rfloor> \<le> y - of_int \<lfloor>y\<rfloor>" using xy by simp
    then show ?thesis using True unfolding round_even_def Let_def by auto
  next
    case False
    then have "\<lfloor>x\<rfloor> + 1 \<le> \<lfloor>y\<rfloor>" using fl by simp
    moreover have "round_even x \<le> \<lfloor>x\<rfloor> + 1" unfolding round_even_def Let_def by auto
    moreover have "\<lfloor>y\<rfloor> \<le> round_even y" unfolding round_even_def Let_def by auto
    ultimately show ?thesis by linarith
  qed
qed

lemma exponent_eq:
  assumes "2 powi e \<le> \<bar>x\<bar>" and "\<bar>x\<bar> < 2 powi (e + 1)"
  shows "exponent x = e"
proof -
  have pos: "0 < \<bar>x\<bar>" using assms(1) by (smt (verit) zero_less_power_int)
  have "2 powr (real_of_int e) = (2::real) powi e" by (simp add: powr_real_of_int')
  moreover have "2 powr (real_of_int e + 1) = (2::real) powi (e + 1)"
    using powr_real_of_int' [of 2 "e + 1"] by simp
  ultimately show ?thesis
    unfolding exponent_def using assms floor_log_eq_powr_iff [OF pos, of 2 e] by simp
qed

lemma exponent_bounds:
  assumes "x \<noteq> 0"
  shows "2 powi (exponent x) \<le> \<bar>x\<bar>" and "\<bar>x\<bar> < 2 powi (exponent x + 1)"
proof -
  have pos: "0 < \<bar>x\<bar>" using assms by simp
  have a: "2 powr (real_of_int (exponent x)) = (2::real) powi (exponent x)"
    by (simp add: powr_real_of_int')
  have b: "2 powr (real_of_int (exponent x) + 1) = (2::real) powi (exponent x + 1)"
    using powr_real_of_int' [of 2 "exponent x + 1"] by simp
  from floor_log_eq_powr_iff [OF pos, of 2 "exponent x"]
  have "2 powr (real_of_int (exponent x)) \<le> \<bar>x\<bar>
          \<and> \<bar>x\<bar> < 2 powr (real_of_int (exponent x) + 1)"
    by (simp add: exponent_def)
  then show "2 powi (exponent x) \<le> \<bar>x\<bar>" and "\<bar>x\<bar> < 2 powi (exponent x + 1)"
    unfolding a b by simp_all
qed

lemma exponent_mono:
  assumes "0 < x" and "x \<le> y"
  shows "exponent x \<le> exponent y"
  unfolding exponent_def using assms by (intro floor_mono) simp

lemma double_zero [simp]: "double 0 = 0"
  by (simp add: double_def)

text \<open>With the exponent at hand the rounding of a given number is a computation.\<close>

lemma double_eval:
  assumes "2 powi e \<le> \<bar>x\<bar>" and "\<bar>x\<bar> < 2 powi (e + 1)"
  shows "double x = of_int (round_even (x / 2 powi (e - 52))) * 2 powi (e - 52)"
proof -
  have "x \<noteq> 0" using assms(1) by (smt (verit) zero_less_power_int abs_zero)
  then show ?thesis by (simp add: double_def exponent_eq [OF assms])
qed

lemma two_powi_upper: "(2::real) powi (e + 1) = 2 powi (e - 52) * 2 ^ 53"
proof -
  have "e + 1 = (e - 52) + 53" by simp
  then have "(2::real) powi (e + 1) = 2 powi ((e - 52) + 53)" by (rule arg_cong)
  also have "\<dots> = 2 powi (e - 52) * 2 powi 53" by (subst power_int_add) simp_all
  finally show ?thesis by simp
qed

lemma two_powi_lower: "(2::real) powi e = 2 powi (e - 52) * 2 ^ 52"
proof -
  have "e = (e - 52) + 52" by simp
  then have "(2::real) powi e = 2 powi ((e - 52) + 52)" by (rule arg_cong)
  also have "\<dots> = 2 powi (e - 52) * 2 powi 52" by (subst power_int_add) simp_all
  finally show ?thesis by simp
qed

text \<open>A positive number and its double lie between the same two powers of two.\<close>

lemma double_range:
  assumes "0 < x"
  shows "2 powi (exponent x) \<le> double x" and "double x \<le> 2 powi (exponent x + 1)"
proof -
  let ?e = "exponent x"
  let ?q = "(2::real) powi (?e - 52)"
  have q: "0 < ?q" by simp
  have x0: "x \<noteq> 0" using assms by simp
  have b: "2 powi ?e \<le> x" "x < 2 powi (?e + 1)"
    using exponent_bounds [OF x0] assms by simp_all
  have lo: "2 ^ 52 \<le> x / ?q"
    using b(1) q unfolding two_powi_lower [of ?e] by (simp add: pos_le_divide_eq mult.commute)
  have hi: "x / ?q \<le> 2 ^ 53"
    using b(2) q unfolding two_powi_upper [of ?e] by (simp add: pos_divide_le_eq mult.commute)
  have "round_even (of_int (2 ^ 52)) \<le> round_even (x / ?q)"
    using lo by (intro round_even_mono) simp
  then have l: "(2 ^ 52 :: int) \<le> round_even (x / ?q)" by (simp only: round_even_of_int)
  have "round_even (x / ?q) \<le> round_even (of_int (2 ^ 53))"
    using hi by (intro round_even_mono) simp
  then have h: "round_even (x / ?q) \<le> (2 ^ 53 :: int)" by (simp only: round_even_of_int)
  have d: "double x = of_int (round_even (x / ?q)) * ?q" using x0 by (simp add: double_def)
  have "2 ^ 52 * ?q \<le> of_int (round_even (x / ?q)) * ?q"
    using l q
    by (intro mult_right_mono) (simp_all add: of_int_le_iff [symmetric] del: of_int_le_iff)
  then show "2 powi ?e \<le> double x"
    unfolding d two_powi_lower [of ?e] by (simp add: mult.commute)
  have "of_int (round_even (x / ?q)) * ?q \<le> 2 ^ 53 * ?q"
    using h q
    by (intro mult_right_mono) (simp_all add: of_int_le_iff [symmetric] del: of_int_le_iff)
  then show "double x \<le> 2 powi (?e + 1)"
    unfolding d two_powi_upper [of ?e] by (simp add: mult.commute)
qed

lemma double_mono_pos:
  assumes "0 < x" and "x \<le> y"
  shows "double x \<le> double y"
proof (cases "exponent x = exponent y")
  case True
  let ?q = "(2::real) powi (exponent y - 52)"
  have q: "0 < ?q" by simp
  have "x / ?q \<le> y / ?q" using assms(2) q by (simp add: divide_right_mono)
  then have "round_even (x / ?q) \<le> round_even (y / ?q)" by (rule round_even_mono)
  then have "of_int (round_even (x / ?q)) * ?q \<le> of_int (round_even (y / ?q)) * ?q"
    using q by (intro mult_right_mono) simp_all
  then show ?thesis using assms True by (simp add: double_def)
next
  case False
  have y: "0 < y" using assms by simp
  from False exponent_mono [OF assms] have "exponent x + 1 \<le> exponent y" by simp
  then have "(2::real) powi (exponent x + 1) \<le> 2 powi (exponent y)"
    by (intro power_int_increasing) simp_all
  with double_range(2) [OF assms(1)] double_range(1) [OF y] show ?thesis by linarith
qed

lemma double_nonneg: "0 \<le> x \<Longrightarrow> 0 \<le> double x"
proof (cases "x = 0")
  case True
  then show ?thesis by simp
next
  case False
  assume "0 \<le> x"
  then have p: "0 < x" using False by simp
  have "(0::real) < 2 powi (exponent x)" by simp
  with double_range(1) [OF p] show ?thesis by linarith
qed

text \<open>Rounding keeps the order of numbers that are not negative.\<close>

lemma double_mono_nonneg:
  assumes "0 \<le> x" and "x \<le> y"
  shows "double x \<le> double y"
proof (cases "x = 0")
  case True
  then show ?thesis using assms double_nonneg [of y] by simp
next
  case False
  then show ?thesis using assms double_mono_pos by simp
qed

text \<open>An integer below \<open>2\<^sup>5\<^sup>3\<close> times a power of two is a double: rounding returns it.\<close>

lemma double_representable:
  assumes "0 < m" and "m < 2 ^ 53"
  shows "double (of_int m * 2 powi j) = of_int m * 2 powi j"
proof -
  define x where "x = of_int m * (2::real) powi j"
  define e where "e = exponent x"
  have x: "0 < x" using assms(1) by (simp add: x_def)
  have x0: "x \<noteq> 0" using x by simp
  have b: "2 powi e \<le> x" using exponent_bounds(1) [OF x0] x by (simp add: e_def)
  have "x < 2 ^ 53 * 2 powi j"
    unfolding x_def using assms(2)
    by (intro mult_strict_right_mono)
      (simp_all add: of_int_less_iff [symmetric] del: of_int_less_iff)
  also have "\<dots> = 2 powi (53 + j)" by (subst power_int_add) simp_all
  finally have "(2::real) powi e < 2 powi (53 + j)" using b by linarith
  then have "e < 53 + j"
    using power_int_increasing [of "53 + j" e "2::real"] by (cases "e < 53 + j") simp_all
  then have k: "0 \<le> j - e + 52" by simp
  define k where "k = nat (j - e + 52)"
  have jk: "j = (e - 52) + int k" using k by (simp add: k_def)
  have "(2::real) powi j = 2 powi ((e - 52) + int k)" using jk by (rule arg_cong)
  also have "\<dots> = 2 powi (e - 52) * 2 ^ k" by (subst power_int_add) simp_all
  finally have pj: "(2::real) powi j = 2 powi (e - 52) * 2 ^ k" .
  have xk: "x = of_int (m * 2 ^ k) * 2 powi (e - 52)" by (simp add: x_def pj)
  have "x / 2 powi (e - 52) = of_int (m * 2 ^ k)" by (subst xk) simp
  then have "round_even (x / 2 powi (e - 52)) = m * 2 ^ k" by (simp only: round_even_of_int)
  moreover have "double x = of_int (round_even (x / 2 powi (e - 52))) * 2 powi (e - 52)"
    using x0 by (simp only: double_def if_False e_def)
  ultimately have "double x = x" using xk by simp
  then show ?thesis by (simp only: x_def)
qed

lemma double_of_int:
  assumes "0 \<le> k" and "k < 2 ^ 53"
  shows "double (of_int k) = of_int k"
proof (cases "k = 0")
  case True
  then show ?thesis by simp
next
  case False
  then have "0 < k" using assms(1) by simp
  from double_representable [OF this assms(2), of 0] show ?thesis by simp
qed

lemma double_dyadic:
  assumes "0 < m" and "m < 2 ^ 53"
  shows "double (of_int m / 2 ^ k) = of_int m / 2 ^ k"
proof -
  have "(2::real) powi (- int k) = 1 / 2 ^ k" by (simp add: power_int_minus field_simps)
  with double_representable [OF assms, of "- int k"] show ?thesis by simp
qed

lemma double_one [simp]: "double 1 = 1"
  using double_of_int [of 1] by simp

lemma double_half: "double (1 / 2) = 1 / 2"
  using double_dyadic [of 1 1] by simp

text \<open>
  The two roundings of a seek within a timeline: the quotient lies between 0 and 1, the product
  between 0 and the last frame.
\<close>

lemma seek_product_bounds:
  assumes "0 \<le> val" and "val \<le> 100" and "0 \<le> n" and "n < 2 ^ 53"
  shows "0 \<le> double (double (val / 100) * real_of_int n)"
    and "double (double (val / 100) * real_of_int n) \<le> real_of_int n"
proof -
  have q0: "0 \<le> double (val / 100)" using assms(1) by (intro double_nonneg) simp
  have "double (val / 100) \<le> double 1"
    using assms(1,2) by (intro double_mono_nonneg) simp_all
  then have q1: "double (val / 100) \<le> 1" by simp
  have rn: "0 \<le> real_of_int n" using assms(3) by simp
  have p0: "0 \<le> double (val / 100) * real_of_int n" using q0 rn by (rule mult_nonneg_nonneg)
  have "double (val / 100) * real_of_int n \<le> 1 * real_of_int n"
    using q1 rn by (rule mult_right_mono)
  then have p1: "double (val / 100) * real_of_int n \<le> real_of_int n" by simp
  show "0 \<le> double (double (val / 100) * real_of_int n)" using p0 by (rule double_nonneg)
  have "double (double (val / 100) * real_of_int n) \<le> double (real_of_int n)"
    using p0 p1 by (rule double_mono_nonneg)
  then show "double (double (val / 100) * real_of_int n) \<le> real_of_int n"
    using double_of_int [OF assms(3,4)] by simp
qed

section \<open>Playback\<close>

subsection \<open>Ticks while paused\<close>

lemma update_paused: "is_paused g \<Longrightarrow> update g frame = Inr g"
  by (simp add: update_def)

lemma ticks_paused: "is_paused g \<Longrightarrow> ticks g frames = Inr g"
  by (induction frames) (simp_all add: update_paused)

text \<open>
  Claim C8. In a state whose paused flag is set, any sequence of ticks, whatever frame numbers
  the animation passes, returns without an exception and leaves the frame index as it was.
\<close>

theorem paused_ticks_keep_frame:
  "is_paused g \<Longrightarrow> \<exists>g'. ticks g frames = Inr g' \<and> current_frame g' = current_frame g"
  by (simp add: ticks_paused)

theorem paused_ticks_keep_frame_witness:
  "is_paused (demo_playback\<lparr> current_frame := 2, is_paused := True \<rparr>)
   \<and> (\<exists>g'. ticks (demo_playback\<lparr> current_frame := 2, is_paused := True \<rparr>) [7, 8, 9] = Inr g'
           \<and> current_frame g' = 2)"
  using paused_ticks_keep_frame [of "demo_playback\<lparr> current_frame := 2, is_paused := True \<rparr>" "[7, 8, 9]"]
  by simp

subsection \<open>Seeking\<close>

lemma slider_update_fields:
  "slider_active (slider_update g val)"
  "is_paused (slider_update g val) = is_paused g"
  "times (slider_update g val) = times g"
  "current_drivers_data (slider_update g val) = current_drivers_data g"
  "current_frame (slider_update g val) =
     max 0 (min (py_int (double (double (val / 100)
                                  * real_of_int (int (length (times g)) - 1))))
                (int (length (times g)) - 1))"
  by (simp_all add: slider_update_def Let_def)

lemma py_int_nonneg: "0 \<le> v \<Longrightarrow> py_int v = \<lfloor>v\<rfloor>"
  by (simp add: py_int_def)

lemma length_demo_times: "length (times demo_playback) = 3"
  by (simp add: demo_playback_def np_arange_def FPS_def)

text \<open>
  Claim C4, as the code has it. On a timeline of \<open>N\<close> timestamps, \<open>1 \<le> N \<le> 2\<^sup>5\<^sup>3\<close>, and for a
  fraction between 0 and 100, the seek sets the frame index to the integer part of the product
  \<open>(fraction / 100) * (N - 1)\<close> as double-precision arithmetic gives it: the quotient and the
  product are each rounded to the nearest double, and the fraction of the result is dropped,
  not rounded to the nearest integer. The frame index lies between 0 and \<open>N - 1\<close>, and the seek
  sets the seek flag; a seek to 0 gives frame 0 and a seek to 100 gives frame \<open>N - 1\<close>.
\<close>

theorem seek_truncates:
  assumes "0 \<le> val" and "val \<le> 100" and "times g \<noteq> []" and "length (times g) \<le> 2 ^ 53"
  shows "current_frame (slider_update g val)
           = \<lfloor>double (double (val / 100) * real_of_int (int (length (times g)) - 1))\<rfloor>
         \<and> 0 \<le> current_frame (slider_update g val)
         \<and> current_frame (slider_update g val) \<le> int (length (times g)) - 1
         \<and> slider_active (slider_update g val)
         \<and> current_frame (slider_update g 0) = 0
         \<and> current_frame (slider_update g 100) = int (length (times g)) - 1"
proof -
  let ?n = "int (length (times g)) - 1"
  let ?p = "double (double (val / 100) * real_of_int ?n)"
  have n: "0 \<le> ?n" using assms(3) by (cases "times g") auto
  have "int (length (times g)) \<le> 2 ^ 53" using assms(4) by (simp add: of_nat_le_iff [symmetric] del: of_nat_le_iff)
  then have n53: "?n < 2 ^ 53" by simp
  note pb = seek_product_bounds [OF assms(1,2) n n53]
  have "\<lfloor>?p\<rfloor> \<le> \<lfloor>real_of_int ?n\<rfloor>" using pb(2) by (rule floor_mono)
  then have hi: "\<lfloor>?p\<rfloor> \<le> ?n" by (simp only: floor_of_int)
  have lo: "0 \<le> \<lfloor>?p\<rfloor>" using pb(1) by simp
  have a: "current_frame (slider_update g val) = \<lfloor>?p\<rfloor>"
    using pb(1) hi lo by (simp add: slider_update_fields py_int_nonneg)
  have b: "0 \<le> current_frame (slider_update g val)" by (simp add: slider_update_fields)
  have c: "current_frame (slider_update g val) \<le> ?n" using n by (simp add: slider_update_fields)
  have d: "slider_active (slider_update g val)" by (simp add: slider_update_fields)
  have e: "current_frame (slider_update g 0) = 0"
    using n by (simp add: slider_update_fields py_int_def)
  have "double (real_of_int ?n) = real_of_int ?n" using n n53 by (rule double_of_int)
  then have f: "current_frame (slider_update g 100) = ?n"
    using n by (simp add: slider_update_fields py_int_def)
  from a b c d e f show ?thesis by (intro conjI)
qed

text \<open>
  A seek to 29 percent of 101 timestamps: the quotient rounds to a double just below
  \<open>29 / 100\<close> and the product to \<open>28.999999999999996\<close>, so the frame is 28.
\<close>

lemma double_29_percent: "double (29 / 100) = 5224175567749775 / 2 ^ 54"
  by (subst double_eval [where e = "- 2"]) (simp_all add: round_even_def)

lemma double_29_percent_of_100:
  "double (5224175567749775 / 2 ^ 54 * 100) = 8162774324609023 / 2 ^ 48"
  by (subst double_eval [where e = 4]) (simp_all add: round_even_def)

lemma length_101: "length (np_arange (112 / 100) (1 / FPS)) = 101"
  by (simp add: np_arange_def FPS_def)

theorem seek_truncates_witness:
  "(0::real) \<le> 29 \<and> (29::real) \<le> 100
   \<and> times (init_globals\<lparr> times := np_arange (112 / 100) (1 / FPS) \<rparr>) \<noteq> []
   \<and> length (times (init_globals\<lparr> times := np_arange (112 / 100) (1 / FPS) \<rparr>)) = 101
   \<and> length (times (init_globals\<lparr> times := np_arange (112 / 100) (1 / FPS) \<rparr>)) \<le> 2 ^ 53
   \<and> current_frame
        (slider_update (init_globals\<lparr> times := np_arange (112 / 100) (1 / FPS) \<rparr>) 29) = 28
   \<and> slider_active
        (slider_update (init_globals\<lparr> times := np_arange (112 / 100) (1 / FPS) \<rparr>) 29)
   \<and> current_frame
        (slider_update (init_globals\<lparr> times := np_arange (112 / 100) (1 / FPS) \<rparr>) 0) = 0
   \<and> current_frame
        (slider_update (init_globals\<lparr> times := np_arange (112 / 100) (1 / FPS) \<rparr>) 100) = 100"
proof -
  define g where "g = init_globals\<lparr> times := np_arange (112 / 100) (1 / FPS) \<rparr>"
  have l: "length (times g) = 101" using length_101 by (simp add: g_def)
  have h3: "times g \<noteq> []" using l by auto
  have h4: "length (times g) \<le> 2 ^ 53" unfolding l by simp
  have h1: "(0::real) \<le> 29" and h2: "(29::real) \<le> 100" by simp_all
  note t = seek_truncates [OF h1 h2 h3 h4]
  have n: "real_of_int (int (length (times g)) - 1) = 100" unfolding l by simp
  have p: "double (double (29 / 100) * 100) = 8162774324609023 / 2 ^ 48"
    by (simp only: double_29_percent double_29_percent_of_100)
  have "\<lfloor>double (double (29 / 100) * real_of_int (int (length (times g)) - 1))\<rfloor>
          = \<lfloor>8162774324609023 / 2 ^ 48 :: real\<rfloor>"
    by (simp only: n p)
  also have "\<dots> = 28" by simp
  finally have f: "\<lfloor>double (double (29 / 100)
                                * real_of_int (int (length (times g)) - 1))\<rfloor> = 28" .
  have "current_frame (slider_update g 29)
          = \<lfloor>double (double (29 / 100) * real_of_int (int (length (times g)) - 1))\<rfloor>"
    using t by blast
  then have a: "current_frame (slider_update g 29) = 28" unfolding f .
  have b: "slider_active (slider_update g 29)" using t by blast
  have c: "current_frame (slider_update g 0) = 0" using t by blast
  have "current_frame (slider_update g 100) = int (length (times g)) - 1" using t by blast
  then have d: "current_frame (slider_update g 100) = 100" unfolding l by simp
  from h1 h2 h3 l h4 a b c d show ?thesis unfolding g_def by (intro conjI)
qed

text \<open>
  The claim as the specification words it asks for the nearest frame. On a timeline of eleven
  timestamps a seek to 57 percent gives frame 5, while \<open>57 / 100 * 10 = 5.7\<close> rounds to 6.
\<close>

lemma double_57_percent: "double (57 / 100) = 5134103575202365 / 2 ^ 53"
  by (subst double_eval [where e = "- 1"]) (simp_all add: round_even_def)

lemma double_57_percent_of_10:
  "double (5134103575202365 / 2 ^ 53 * 10) = 6417629469002956 / 2 ^ 50"
  by (subst double_eval [where e = 2]) (simp_all add: round_even_def)

theorem seek_rounds_counterexample:
  "current_frame (slider_update (init_globals\<lparr> times := np_arange (11 / 90) (1 / FPS) \<rparr>) 57)
     \<noteq> round (57 / 100 * real_of_int (int (length (np_arange (11 / 90) (1 / FPS))) - 1))"
proof -
  define g where "g = init_globals\<lparr> times := np_arange (11 / 90) (1 / FPS) \<rparr>"
  have l0: "length (np_arange (11 / 90) (1 / FPS)) = 11" by (simp add: np_arange_def FPS_def)
  then have l: "length (times g) = 11" by (simp add: g_def)
  have n: "real_of_int (int (length (times g)) - 1) = 10" unfolding l by simp
  have p: "double (double (57 / 100) * 10) = 6417629469002956 / 2 ^ 50"
    by (simp only: double_57_percent double_57_percent_of_10)
  have "py_int (double (double (57 / 100) * real_of_int (int (length (times g)) - 1)))
          = py_int (6417629469002956 / 2 ^ 50)"
    by (simp only: n p)
  also have "\<dots> = 5" by (simp add: py_int_def)
  finally have f: "py_int (double (double (57 / 100)
                                     * real_of_int (int (length (times g)) - 1))) = 5" .
  have "current_frame (slider_update g 57)
          = max 0 (min (py_int (double (double (57 / 100)
                                         * real_of_int (int (length (times g)) - 1))))
                       (int (length (times g)) - 1))"
    by (rule slider_update_fields(5))
  then have "current_frame (slider_update g 57)
               = max 0 (min 5 (int (length (times g)) - 1))"
    by (simp only: f)
  then have "current_frame (slider_update g 57) = 5" by (simp add: l)
  moreover have "round (57 / 100 * real_of_int (int (length (np_arange (11 / 90) (1 / FPS))) - 1))
                   = (6::int)"
    unfolding l0 by (simp add: round_def)
  ultimately show ?thesis unfolding g_def by simp
qed

lemma position_step_aligned: "aligned d \<Longrightarrow> \<exists>r. position_step cf d acc = Inr r"
  by (cases acc) (simp add: position_step_def aligned_def)

lemma positions_aligned:
  "\<forall>d\<in>set ds. aligned d \<Longrightarrow> \<exists>r. positions cf ds acc = Inr r"
proof (induction ds arbitrary: acc)
  case Nil
  then show ?case by simp
next
  case (Cons d ds)
  then obtain r where "position_step cf d acc = Inr r"
    using position_step_aligned [of d cf acc] by auto
  with Cons show ?case by simp
qed

lemma update_seeked:
  assumes "\<not> is_paused g" and "slider_active g"
    and "\<forall>d\<in>set (current_drivers_data g). aligned d"
  shows "\<exists>g'. update g frame = Inr g' \<and> \<not> slider_active g'
           \<and> current_frame g' = max 0 (min (current_frame g) (int (length (times g)) - 1))"
proof -
  define c where "c = max 0 (min (current_frame g) (int (length (times g)) - 1))"
  obtain ms dcd where "positions (nat c) (current_drivers_data g) (0, []) = Inr (ms, dcd)"
    using positions_aligned [OF assms(3), of "nat c" "(0, [])"] by (metis surj_pair)
  then show ?thesis using assms(1,2)
    by (simp add: update_def set_val_def Let_def c_def)
qed

lemma aligned_demo_record: "aligned (demo_record name v)"
  by (simp add: aligned_def demo_record_def)

text \<open>
  Claim C10. Let the paused flag be set and the records of the current view have arrays of one
  length. A tick returns the state as it is, so it neither consumes the seek flag nor moves the
  frame index. A seek leaves the paused flag set, sets the seek flag and moves the frame index
  at once. After the seek every sequence of ticks returns the state as the seek left it. Once
  the pause button is pressed again, the first tick returns without an exception, clears the
  seek flag and keeps the frame index of the seek, whatever frame number the animation passes.
\<close>

theorem seek_survives_pause:
  assumes "is_paused g" and "\<forall>d\<in>set (current_drivers_data g). aligned d"
  shows "update g frame = Inr g
         \<and> is_paused (slider_update g val)
         \<and> slider_active (slider_update g val)
         \<and> current_frame (slider_update g val)
             = max 0 (min (py_int (double (double (val / 100)
                                            * real_of_int (int (length (times g)) - 1))))
                          (int (length (times g)) - 1))
         \<and> ticks (slider_update g val) frames = Inr (slider_update g val)
         \<and> (\<exists>g'. update (pause_callback (slider_update g val)) frame' = Inr g'
                  \<and> \<not> slider_active g'
                  \<and> current_frame g' = current_frame (slider_update g val))"
proof -
  let ?s = "slider_update g val"
  have p: "is_paused ?s" using assms(1) by (simp add: slider_update_fields)
  have a: "update g frame = Inr g" using assms(1) by (rule update_paused)
  have b: "slider_active ?s" by (simp add: slider_update_fields)
  have c: "current_frame ?s
             = max 0 (min (py_int (double (double (val / 100)
                                            * real_of_int (int (length (times g)) - 1))))
                          (int (length (times g)) - 1))"
    by (simp add: slider_update_fields)
  have d: "ticks ?s frames = Inr ?s" using p by (rule ticks_paused)
  have "\<not> is_paused (pause_callback ?s)" "slider_active (pause_callback ?s)"
    "\<forall>d\<in>set (current_drivers_data (pause_callback ?s)). aligned d"
    using p assms(2) by (simp_all add: pause_callback_def slider_update_fields)
  from update_seeked [OF this, of frame']
  obtain g' where g': "update (pause_callback ?s) frame' = Inr g'" "\<not> slider_active g'"
    "current_frame g' = max 0 (min (current_frame (pause_callback ?s))
                                  (int (length (times (pause_callback ?s))) - 1))"
    by blast
  have "current_frame g' = current_frame ?s"
    unfolding g'(3) by (simp add: pause_callback_def slider_update_fields)
  with g'(1,2) have e: "\<exists>g'. update (pause_callback ?s) frame' = Inr g'
                  \<and> \<not> slider_active g' \<and> current_frame g' = current_frame ?s"
    by blast
  from a p b c d e show ?thesis by (intro conjI)
qed

theorem seek_survives_pause_witness:
  "is_paused (demo_playback\<lparr> is_paused := True \<rparr>)
   \<and> list_all aligned (current_drivers_data (demo_playback\<lparr> is_paused := True \<rparr>))
   \<and> current_frame (slider_update (demo_playback\<lparr> is_paused := True \<rparr>) 50) = 1
   \<and> ticks (slider_update (demo_playback\<lparr> is_paused := True \<rparr>) 50) [4, 5]
        = Inr (slider_update (demo_playback\<lparr> is_paused := True \<rparr>) 50)
   \<and> (\<exists>g'. update (pause_callback (slider_update (demo_playback\<lparr> is_paused := True \<rparr>) 50)) 6
               = Inr g'
            \<and> \<not> slider_active g' \<and> current_frame g' = 1)"
proof -
  let ?g = "demo_playback\<lparr> is_paused := True \<rparr>"
  have h1: "is_paused ?g" by simp
  have h2: "\<forall>d\<in>set (current_drivers_data ?g). aligned d"
    by (simp add: demo_playback_def aligned_demo_record)
  have n: "length (times ?g) = 3" by (simp add: length_demo_times)
  have f: "max 0 (min (py_int (double (double (50 / 100)
                                        * real_of_int (int (length (times ?g)) - 1))))
                      (int (length (times ?g)) - 1)) = 1"
    unfolding n by (simp add: py_int_def double_half)
  note t = seek_survives_pause [OF h1 h2, of 0 50 "[4, 5]" 6]
  have c: "current_frame (slider_update ?g 50) = 1" using t f by simp
  have d: "ticks (slider_update ?g 50) [4, 5] = Inr (slider_update ?g 50)" using t by blast
  have e: "\<exists>g'. update (pause_callback (slider_update ?g 50)) 6 = Inr g'
            \<and> \<not> slider_active g' \<and> current_frame g' = 1"
    using t c by metis
  have h2': "list_all aligned (current_drivers_data ?g)" using h2 by (simp add: list_all_iff)
  from h1 h2' c d e show ?thesis by (intro conjI)
qed

subsection \<open>Reset\<close>

lemma reset_callback_fields:
  "eventson g \<Longrightarrow>
     slider_active (reset_callback g) \<and> current_frame (reset_callback g) = 0
     \<and> is_paused (reset_callback g) = is_paused g"
  by (simp add: reset_callback_def set_val_def slider_update_def py_int_def Let_def)

text \<open>
  Claim C9, at one state. The reset clears the seek flag at line 312 and then moves the slider
  to 0 at line 313 with the slider's events on, which calls \<open>slider_update\<close> and sets the flag
  again: from the playing state at frame 2 the reset ends at frame 0 with the paused flag as it
  was and with the seek flag set.
\<close>

theorem reset_sets_seek_flag:
  "current_frame (reset_callback (demo_playback\<lparr> current_frame := 2 \<rparr>)) = 0
   \<and> is_paused (reset_callback (demo_playback\<lparr> current_frame := 2 \<rparr>))
       = is_paused (demo_playback\<lparr> current_frame := 2 \<rparr>)
   \<and> slider_active (reset_callback (demo_playback\<lparr> current_frame := 2 \<rparr>))"
  by (simp add: reset_callback_def set_val_def slider_update_def py_int_def Let_def
        demo_playback_def init_globals_def)

section \<open>The gap between two drivers\<close>

lemma avg_speed_mps_pos: "0 < avg_speed_mps_of cf d1 d2 max_speed"
  by (simp add: avg_speed_mps_of_def Let_def)

lemma time_gap_nonneg: "0 \<le> time_gap_of distance_gap v"
  by (simp add: time_gap_of_def)

text \<open>
  Claim C7. The divisor of the time gap is positive for every frame, every pair of records and
  every distance gap, so the time gap is the quotient \<open>|distance gap| / divisor\<close> and is not
  negative; the gap display shows this quotient. Where both records have a speed at the frame
  and the average of the two speeds is zero or less, the divisor is 1 and the time gap is the
  distance gap's absolute value.
\<close>

theorem time_gap_divisor_positive:
  "0 < avg_speed_mps_of cf d1 d2 max_speed
   \<and> time_gap_of distance_gap (avg_speed_mps_of cf d1 d2 max_speed)
       = \<bar>distance_gap\<bar> / avg_speed_mps_of cf d1 d2 max_speed
   \<and> 0 \<le> time_gap_of distance_gap (avg_speed_mps_of cf d1 d2 max_speed)
   \<and> (ghost_gap cf d1 d2 max_speed dists = AheadBy name t \<longrightarrow>
        0 \<le> t \<and> t = \<bar>dists ! 0 - dists ! 1\<bar> / avg_speed_mps_of cf d1 d2 max_speed)
   \<and> (cf < length (Speed_interp d1) \<longrightarrow> cf < length (Speed_interp d2) \<longrightarrow>
        (Speed_interp d1 ! cf + Speed_interp d2 ! cf) / 2 \<le> 0 \<longrightarrow>
        avg_speed_mps_of cf d1 d2 max_speed = 1
        \<and> time_gap_of distance_gap (avg_speed_mps_of cf d1 d2 max_speed) = \<bar>distance_gap\<bar>)"
proof -
  have p: "0 < avg_speed_mps_of cf d1 d2 max_speed" by (rule avg_speed_mps_pos)
  then have q: "time_gap_of dg (avg_speed_mps_of cf d1 d2 max_speed)
                  = \<bar>dg\<bar> / avg_speed_mps_of cf d1 d2 max_speed" for dg
    by (simp add: time_gap_of_def)
  have r: "0 \<le> time_gap_of distance_gap (avg_speed_mps_of cf d1 d2 max_speed)"
    by (rule time_gap_nonneg)
  have s: "cf < length (Speed_interp d1) \<longrightarrow> cf < length (Speed_interp d2) \<longrightarrow>
        (Speed_interp d1 ! cf + Speed_interp d2 ! cf) / 2 \<le> 0 \<longrightarrow>
        avg_speed_mps_of cf d1 d2 max_speed = 1
        \<and> time_gap_of distance_gap (avg_speed_mps_of cf d1 d2 max_speed) = \<bar>distance_gap\<bar>"
    by (simp add: avg_speed_mps_of_def time_gap_of_def Let_def)
  have u: "ghost_gap cf d1 d2 max_speed dists = AheadBy name t \<longrightarrow>
        0 \<le> t \<and> t = \<bar>dists ! 0 - dists ! 1\<bar> / avg_speed_mps_of cf d1 d2 max_speed"
  proof
    assume "ghost_gap cf d1 d2 max_speed dists = AheadBy name t"
    then have tt: "t = time_gap_of (dists ! 0 - dists ! 1) (avg_speed_mps_of cf d1 d2 max_speed)"
      by (simp add: ghost_gap_def Let_def split: if_splits)
    have "0 \<le> t" unfolding tt by (rule time_gap_nonneg)
    moreover have "t = \<bar>dists ! 0 - dists ! 1\<bar> / avg_speed_mps_of cf d1 d2 max_speed"
      unfolding tt by (rule q)
    ultimately show "0 \<le> t \<and> t = \<bar>dists ! 0 - dists ! 1\<bar> / avg_speed_mps_of cf d1 d2 max_speed"
      by (rule conjI)
  qed
  from p q r u s show ?thesis by (intro conjI)
qed

theorem time_gap_divisor_positive_witness:
  "(1::nat) < length (Speed_interp (demo_record ''VER'' 10\<lparr> Speed_interp := [0, 0, 0] \<rparr>))
   \<and> (1::nat) < length (Speed_interp (demo_record ''ALO'' 5\<lparr> Speed_interp := [0, 0, 0] \<rparr>))
   \<and> (Speed_interp (demo_record ''VER'' 10\<lparr> Speed_interp := [0, 0, 0] \<rparr>) ! 1
        + Speed_interp (demo_record ''ALO'' 5\<lparr> Speed_interp := [0, 0, 0] \<rparr>) ! 1) / 2 \<le> 0
   \<and> ghost_gap 1 (demo_record ''VER'' 10\<lparr> Speed_interp := [0, 0, 0] \<rparr>)
        (demo_record ''ALO'' 5\<lparr> Speed_interp := [0, 0, 0] \<rparr>) 0 [10, 5] = AheadBy ''VER'' 5
   \<and> avg_speed_mps_of 1 (demo_record ''VER'' 10\<lparr> Speed_interp := [0, 0, 0] \<rparr>)
        (demo_record ''ALO'' 5\<lparr> Speed_interp := [0, 0, 0] \<rparr>) 0 = 1
   \<and> time_gap_of 5 (avg_speed_mps_of 1 (demo_record ''VER'' 10\<lparr> Speed_interp := [0, 0, 0] \<rparr>)
        (demo_record ''ALO'' 5\<lparr> Speed_interp := [0, 0, 0] \<rparr>) 0) = 5"
proof -
  let ?a = "demo_record ''VER'' 10\<lparr> Speed_interp := [0, 0, 0] \<rparr>"
  let ?b = "demo_record ''ALO'' 5\<lparr> Speed_interp := [0, 0, 0] \<rparr>"
  have h1: "(1::nat) < length (Speed_interp ?a)" by simp
  have h2: "(1::nat) < length (Speed_interp ?b)" by simp
  have h3: "(Speed_interp ?a ! 1 + Speed_interp ?b ! 1) / 2 \<le> 0" by simp
  note t = time_gap_divisor_positive [of 1 ?a ?b 0 5 "[10, 5]" "''VER''" 5]
  have c: "avg_speed_mps_of 1 ?a ?b 0 = 1" using t h1 h2 h3 by blast
  have "time_gap_of 5 (avg_speed_mps_of 1 ?a ?b 0) = \<bar>5\<bar>" using t h1 h2 h3 by blast
  then have d: "time_gap_of 5 (avg_speed_mps_of 1 ?a ?b 0) = 5" by simp
  have g: "ghost_gap 1 ?a ?b 0 [10, 5] = AheadBy ''VER'' 5"
    using c d by (simp add: ghost_gap_def demo_record_def Let_def)
  from h1 h2 h3 g c d show ?thesis by (intro conjI)
qed

subsection \<open>Swapping the two drivers\<close>

lemma positions_pair:
  assumes "aligned a" and "aligned b"
  shows "positions cf [a, b] (0, []) =
     Inr (max (if cf < length (X_interp a) then max 0 (Speed_interp a ! cf) else 0)
              (if cf < length (X_interp b) then Speed_interp b ! cf else 0),
          [frame_distance a cf, frame_distance b cf])"
  using assms by (simp add: position_step_def aligned_def frame_distance_def)

lemma max_speed_sym:
  "max (if p then max 0 (x::real) else 0) (if q then y else 0)
   = max (if q then max 0 y else 0) (if p then x else 0)"
  by auto

lemma avg_speed_sym:
  "aligned a \<Longrightarrow> aligned b \<Longrightarrow> avg_speed_mps_of cf a b ms = avg_speed_mps_of cf b a ms"
  by (simp add: avg_speed_mps_of_def Let_def add.commute conj_commute)

lemma gap_sym:
  assumes "aligned a" and "aligned b"
  shows "gap a b cf = gap b a cf"
proof -
  let ?ms = "max (if cf < length (X_interp a) then max 0 (Speed_interp a ! cf) else 0)
              (if cf < length (X_interp b) then Speed_interp b ! cf else 0)"
  let ?ms' = "max (if cf < length (X_interp b) then max 0 (Speed_interp b ! cf) else 0)
              (if cf < length (X_interp a) then Speed_interp a ! cf else 0)"
  have m: "?ms = ?ms'" by (rule max_speed_sym)
  have 1: "gap a b cf = Inr (ghost_gap cf a b ?ms [frame_distance a cf, frame_distance b cf])"
    using positions_pair [OF assms] by (simp add: gap_def)
  have 2: "gap b a cf = Inr (ghost_gap cf b a ?ms' [frame_distance b cf, frame_distance a cf])"
    using positions_pair [OF assms(2) assms(1)] by (simp add: gap_def)
  have "ghost_gap cf a b ?ms [frame_distance a cf, frame_distance b cf]
      = ghost_gap cf b a ?ms [frame_distance b cf, frame_distance a cf]"
    using avg_speed_sym [OF assms, of cf ?ms]
    by (auto simp add: ghost_gap_def Let_def time_gap_of_def abs_minus_commute)
  with 1 2 m show ?thesis by simp
qed

lemma gap_shape:
  assumes "aligned a" and "aligned b"
  shows "\<exists>r. gap a b cf = Inr r
     \<and> (r = SideBySide \<longleftrightarrow> \<bar>frame_distance a cf - frame_distance b cf\<bar> < 1)
     \<and> (1 \<le> \<bar>frame_distance a cf - frame_distance b cf\<bar> \<longrightarrow>
          (\<exists>t. 0 \<le> t
             \<and> r = AheadBy (if frame_distance a cf > frame_distance b cf
                            then Driver a else Driver b) t))"
  using positions_pair [OF assms, of cf] time_gap_nonneg
  by (auto simp add: gap_def ghost_gap_def Let_def)

text \<open>
  Claim C6, as the code has it. For two records whose arrays have one length each and for every
  frame, the gap of \<open>(a, b)\<close> and the gap of \<open>(b, a)\<close> are computed without an exception and are
  the same display: side by side exactly when the cumulative distances at the frame differ by
  less than 1, and otherwise the same driver, the one with the larger cumulative distance,
  ahead by the same time gap, which is not negative. That driver is the first of one order and
  the second of the other.
\<close>

theorem gap_swap_same_display:
  assumes "aligned a" and "aligned b"
  shows "\<exists>r. gap a b cf = Inr r \<and> gap b a cf = Inr r
     \<and> (r = SideBySide \<longleftrightarrow> \<bar>frame_distance a cf - frame_distance b cf\<bar> < 1)
     \<and> (1 \<le> \<bar>frame_distance a cf - frame_distance b cf\<bar> \<longrightarrow>
          (\<exists>t. 0 \<le> t
             \<and> r = AheadBy (if frame_distance a cf > frame_distance b cf
                            then Driver a else Driver b) t))"
  using gap_shape [OF assms, of cf] gap_sym [OF assms, of cf] by auto

theorem gap_swap_same_display_witness:
  "aligned (demo_record ''VER'' 10) \<and> aligned (demo_record ''ALO'' 5)
   \<and> (\<exists>r t. gap (demo_record ''VER'' 10) (demo_record ''ALO'' 5) 1 = Inr r
          \<and> gap (demo_record ''ALO'' 5) (demo_record ''VER'' 10) 1 = Inr r
          \<and> r = AheadBy ''VER'' t)"
proof -
  let ?a = "demo_record ''VER'' 10" and ?b = "demo_record ''ALO'' 5"
  have h1: "aligned ?a" and h2: "aligned ?b" by (rule aligned_demo_record)+
  have d: "frame_distance ?a 1 = 10" "frame_distance ?b 1 = 5" "Driver ?a = ''VER''"
    by (simp_all add: frame_distance_def demo_record_def)
  from gap_swap_same_display [OF h1 h2, of 1]
  have "\<exists>r t. gap ?a ?b 1 = Inr r \<and> gap ?b ?a 1 = Inr r \<and> r = AheadBy ''VER'' t"
    unfolding d by auto
  with h1 h2 show ?thesis by (intro conjI)
qed

text \<open>
  The claim as the specification words it has the two orders name opposite drivers. With
  \<open>VER\<close> 10 metres and \<open>ALO\<close> 5 metres along at frame 1, both at 36 km/h, both orders show
  \<open>VER\<close> ahead by half a second.
\<close>

theorem gap_swap_counterexample:
  "gap (demo_record ''VER'' 10) (demo_record ''ALO'' 5) 1 = Inr (AheadBy ''VER'' (1 / 2))
   \<and> gap (demo_record ''ALO'' 5) (demo_record ''VER'' 10) 1 = Inr (AheadBy ''VER'' (1 / 2))"
  by (simp add: gap_def position_step_def demo_record_def ghost_gap_def time_gap_of_def
        avg_speed_mps_of_def Let_def)

section \<open>Resampling\<close>

lemma lerp_between:
  fixes x t0 t1 v0 v1 :: real
  assumes "t0 \<le> x" and "x < t1"
  shows "min v0 v1 \<le> (v1 - v0) / (t1 - t0) * (x - t0) + v0"
    and "(v1 - v0) / (t1 - t0) * (x - t0) + v0 \<le> max v0 v1"
proof -
  define l where "l = (x - t0) / (t1 - t0)"
  have d: "0 < t1 - t0" using assms by simp
  have l0: "0 \<le> l" using assms d by (simp add: l_def)
  have l1: "l \<le> 1" using assms d by (simp add: l_def)
  have e: "(v1 - v0) / (t1 - t0) * (x - t0) + v0 = v0 + l * (v1 - v0)"
    by (simp add: l_def)
  show "min v0 v1 \<le> (v1 - v0) / (t1 - t0) * (x - t0) + v0"
  proof (cases "v0 \<le> v1")
    case True
    then have "0 \<le> l * (v1 - v0)" using l0 by simp
    then have "v0 \<le> v0 + l * (v1 - v0)" by simp
    then show ?thesis unfolding e by (rule min.coboundedI1)
  next
    case False
    then have "l * (v1 - v0) \<ge> 1 * (v1 - v0)" using l1 by (intro mult_right_mono_neg) auto
    then have "v1 \<le> v0 + l * (v1 - v0)" by simp
    then show ?thesis unfolding e by (rule min.coboundedI2)
  qed
  show "(v1 - v0) / (t1 - t0) * (x - t0) + v0 \<le> max v0 v1"
  proof (cases "v0 \<le> v1")
    case True
    then have "l * (v1 - v0) \<le> 1 * (v1 - v0)" using l1 by (intro mult_right_mono) auto
    then have "v0 + l * (v1 - v0) \<le> v1" by simp
    then show ?thesis unfolding e by (rule max.coboundedI2)
  next
    case False
    then have "l * (v1 - v0) \<le> 0" using l0 by (simp add: mult_nonneg_nonpos)
    then have "v0 + l * (v1 - v0) \<le> v0" by simp
    then show ?thesis unfolding e by (rule max.coboundedI1)
  qed
qed

lemma interp_scan_between:
  "length vs = length ts \<Longrightarrow> ts \<noteq> [] \<Longrightarrow> hd ts \<le> x \<Longrightarrow>
     (\<exists>a\<in>set vs. a \<le> interp_scan x ts vs) \<and> (\<exists>b\<in>set vs. interp_scan x ts vs \<le> b)"
proof (induction x ts vs rule: interp_scan.induct)
  case (1 x t0 t1 ts v0 v1 vs)
  show ?case
  proof (cases "x < t1")
    case True
    show ?thesis
    proof (cases "t0 = x")
      case True
      with \<open>x < t1\<close> show ?thesis by auto
    next
      case False
      have t: "t0 \<le> x" using 1(4) by simp
      from lerp_between [OF t \<open>x < t1\<close>, where ?v0.0 = v0 and ?v1.0 = v1]
      have "min v0 v1 \<le> interp_scan x (t0 # t1 # ts) (v0 # v1 # vs)"
        "interp_scan x (t0 # t1 # ts) (v0 # v1 # vs) \<le> max v0 v1"
        using True False by simp_all
      then show ?thesis by (auto simp add: min_def max_def split: if_splits)
    qed
  next
    case False
    then have "hd (t1 # ts) \<le> x" by simp
    with 1(1) [OF False] 1(2) have
      "(\<exists>a\<in>set (v1 # vs). a \<le> interp_scan x (t1 # ts) (v1 # vs)) \<and>
       (\<exists>b\<in>set (v1 # vs). interp_scan x (t1 # ts) (v1 # vs) \<le> b)" by simp
    then show ?thesis using False by auto
  qed
qed auto

lemma interp1_between:
  assumes "length fp = length xp" and "xp \<noteq> []"
  shows "Min (set fp) \<le> interp1 xp fp x" and "interp1 xp fp x \<le> Max (set fp)"
proof -
  have ne: "fp \<noteq> []" using assms by auto
  have "(\<exists>a\<in>set fp. a \<le> interp1 xp fp x) \<and> (\<exists>b\<in>set fp. interp1 xp fp x \<le> b)"
  proof (cases "x > last xp")
    case True
    then show ?thesis using ne by (auto simp add: interp1_def)
  next
    case F: False
    show ?thesis
    proof (cases "x < hd xp")
      case True
      then show ?thesis using ne F by (auto simp add: interp1_def)
    next
      case False
      then have "hd xp \<le> x" by simp
      from interp_scan_between [OF assms this] show ?thesis
        using F False by (simp add: interp1_def)
    qed
  qed
  then obtain a b where ab: "a \<in> set fp" "a \<le> interp1 xp fp x"
    "b \<in> set fp" "interp1 xp fp x \<le> b"
    by blast
  show "Min (set fp) \<le> interp1 xp fp x"
    using ab(1,2) by (meson List.finite_set Min_le order_trans)
  show "interp1 xp fp x \<le> Max (set fp)"
    using ab(3,4) by (meson List.finite_set Max_ge order_trans)
qed

lemma interp1_clamp:
  assumes "xp \<noteq> []" and "sorted xp"
  shows "x < hd xp \<Longrightarrow> interp1 xp fp x = hd fp"
    and "last xp < x \<Longrightarrow> interp1 xp fp x = last fp"
proof -
  have "hd xp \<le> last xp" using assms
    by (metis hd_conv_nth last_conv_nth sorted_nth_mono diff_less length_greater_0_conv
          zero_less_one le0)
  then show "x < hd xp \<Longrightarrow> interp1 xp fp x = hd fp" by (simp add: interp1_def)
  show "last xp < x \<Longrightarrow> interp1 xp fp x = last fp" by (simp add: interp1_def)
qed

lemma np_interp_ok:
  "xp \<noteq> [] \<Longrightarrow> length fp = length xp \<Longrightarrow> np_interp xs xp fp = Inr (map (interp1 xp fp) xs)"
  by (simp add: np_interp_def)

lemma interpolate_telemetry_ok:
  "tel \<noteq> [] \<Longrightarrow> interpolate_telemetry tel ts =
     Inr (map (interp1 (map Time tel) (map X tel)) ts,
          map (interp1 (map Time tel) (map Y tel)) ts,
          map (interp1 (map Time tel) (map Speed tel)) ts)"
  by (simp add: interpolate_telemetry_def np_interp_ok Let_def)

lemma channel_bounds:
  assumes "tel \<noteq> []" and "sorted (map Time tel)"
  shows "Min (set (map f tel)) \<le> interp1 (map Time tel) (map f tel) t
     \<and> interp1 (map Time tel) (map f tel) t \<le> Max (set (map f tel))
     \<and> (t < Time (hd tel) \<longrightarrow> interp1 (map Time tel) (map f tel) t = f (hd tel))
     \<and> (Time (last tel) < t \<longrightarrow> interp1 (map Time tel) (map f tel) t = f (last tel))"
proof -
  have ne: "map Time tel \<noteq> []" using assms(1) by simp
  have len: "length (map f tel) = length (map Time tel)" by simp
  have h: "hd (map Time tel) = Time (hd tel)" "hd (map f tel) = f (hd tel)"
    "last (map Time tel) = Time (last tel)" "last (map f tel) = f (last tel)"
    using assms(1) by (simp_all add: hd_map last_map)
  show ?thesis
    using interp1_between [OF len ne, of t] interp1_clamp [OF ne assms(2), of t "map f tel"]
    unfolding h by blast
qed

text \<open>
  Claim C2. For a telemetry frame that is not empty and whose times are sorted, and for every
  list of query times (the shared timeline among them), the resampling returns three arrays of
  the length of the list, without an exception. Every entry of each array lies between the
  least and the greatest raw value of its channel. At a query time before the first raw sample
  the three entries are the first raw values, at one after the last raw sample they are the last
  raw values.
\<close>

theorem resampled_within_raw_range:
  assumes "tel \<noteq> []" and "sorted (map Time tel)"
  shows "\<exists>xs ys ss. interpolate_telemetry tel ts = Inr (xs, ys, ss)
     \<and> length xs = length ts \<and> length ys = length ts \<and> length ss = length ts
     \<and> (\<forall>i. i < length ts \<longrightarrow>
           Min (set (map X tel)) \<le> xs ! i \<and> xs ! i \<le> Max (set (map X tel))
         \<and> Min (set (map Y tel)) \<le> ys ! i \<and> ys ! i \<le> Max (set (map Y tel))
         \<and> Min (set (map Speed tel)) \<le> ss ! i \<and> ss ! i \<le> Max (set (map Speed tel))
         \<and> (ts ! i < Time (hd tel) \<longrightarrow>
               xs ! i = X (hd tel) \<and> ys ! i = Y (hd tel) \<and> ss ! i = Speed (hd tel))
         \<and> (Time (last tel) < ts ! i \<longrightarrow>
               xs ! i = X (last tel) \<and> ys ! i = Y (last tel) \<and> ss ! i = Speed (last tel)))"
proof -
  let ?xs = "map (interp1 (map Time tel) (map X tel)) ts"
  let ?ys = "map (interp1 (map Time tel) (map Y tel)) ts"
  let ?ss = "map (interp1 (map Time tel) (map Speed tel)) ts"
  have r: "interpolate_telemetry tel ts = Inr (?xs, ?ys, ?ss)"
    using assms(1) by (rule interpolate_telemetry_ok)
  have b: "\<forall>i. i < length ts \<longrightarrow>
           Min (set (map X tel)) \<le> ?xs ! i \<and> ?xs ! i \<le> Max (set (map X tel))
         \<and> Min (set (map Y tel)) \<le> ?ys ! i \<and> ?ys ! i \<le> Max (set (map Y tel))
         \<and> Min (set (map Speed tel)) \<le> ?ss ! i \<and> ?ss ! i \<le> Max (set (map Speed tel))
         \<and> (ts ! i < Time (hd tel) \<longrightarrow>
               ?xs ! i = X (hd tel) \<and> ?ys ! i = Y (hd tel) \<and> ?ss ! i = Speed (hd tel))
         \<and> (Time (last tel) < ts ! i \<longrightarrow>
               ?xs ! i = X (last tel) \<and> ?ys ! i = Y (last tel) \<and> ?ss ! i = Speed (last tel))"
  proof (intro allI impI)
    fix i assume i: "i < length ts"
    note cx = channel_bounds [OF assms, of X "ts ! i"]
    note cy = channel_bounds [OF assms, of Y "ts ! i"]
    note cs = channel_bounds [OF assms, of Speed "ts ! i"]
    show "Min (set (map X tel)) \<le> ?xs ! i \<and> ?xs ! i \<le> Max (set (map X tel))
         \<and> Min (set (map Y tel)) \<le> ?ys ! i \<and> ?ys ! i \<le> Max (set (map Y tel))
         \<and> Min (set (map Speed tel)) \<le> ?ss ! i \<and> ?ss ! i \<le> Max (set (map Speed tel))
         \<and> (ts ! i < Time (hd tel) \<longrightarrow>
               ?xs ! i = X (hd tel) \<and> ?ys ! i = Y (hd tel) \<and> ?ss ! i = Speed (hd tel))
         \<and> (Time (last tel) < ts ! i \<longrightarrow>
               ?xs ! i = X (last tel) \<and> ?ys ! i = Y (last tel) \<and> ?ss ! i = Speed (last tel))"
      unfolding nth_map [OF i] using cx cy cs by blast
  qed
  have l: "length ?xs = length ts" "length ?ys = length ts" "length ?ss = length ts"
    by simp_all
  from r l b show ?thesis by blast
qed

theorem resampled_within_raw_range_witness:
  "demo_tel 1 \<noteq> [] \<and> sorted (map Time (demo_tel 1))
   \<and> (\<exists>xs ys ss. interpolate_telemetry (demo_tel 1) [- 1, 1 / 90, 1] = Inr (xs, ys, ss)
         \<and> xs ! 0 = 0 \<and> 0 \<le> xs ! 1 \<and> xs ! 1 \<le> 3 \<and> xs ! 2 = 3
         \<and> 100 \<le> ss ! 1 \<and> ss ! 1 \<le> 120)"
proof -
  have h1: "demo_tel 1 \<noteq> []" by (simp add: demo_tel_def)
  have h2: "sorted (map Time (demo_tel 1))" by (simp add: demo_tel_def)
  have m: "Min (set (map X (demo_tel 1))) = 0" "Max (set (map X (demo_tel 1))) = 3"
    "Min (set (map Speed (demo_tel 1))) = 100" "Max (set (map Speed (demo_tel 1))) = 120"
    "Time (hd (demo_tel 1)) = 0" "X (hd (demo_tel 1)) = 0"
    "Time (last (demo_tel 1)) = 1 / 45" "X (last (demo_tel 1)) = 3"
    by (simp_all add: demo_tel_def)
  from resampled_within_raw_range [OF h1 h2, of "[- 1, 1 / 90, 1]"]
  obtain xs ys ss where r: "interpolate_telemetry (demo_tel 1) [- 1, 1 / 90, 1] = Inr (xs, ys, ss)"
    and b: "\<forall>i. i < length [- 1, 1 / 90, 1 :: real] \<longrightarrow>
           Min (set (map X (demo_tel 1))) \<le> xs ! i \<and> xs ! i \<le> Max (set (map X (demo_tel 1)))
         \<and> Min (set (map Y (demo_tel 1))) \<le> ys ! i \<and> ys ! i \<le> Max (set (map Y (demo_tel 1)))
         \<and> Min (set (map Speed (demo_tel 1))) \<le> ss ! i
         \<and> ss ! i \<le> Max (set (map Speed (demo_tel 1)))
         \<and> ([- 1, 1 / 90, 1] ! i < Time (hd (demo_tel 1)) \<longrightarrow>
               xs ! i = X (hd (demo_tel 1)) \<and> ys ! i = Y (hd (demo_tel 1))
               \<and> ss ! i = Speed (hd (demo_tel 1)))
         \<and> (Time (last (demo_tel 1)) < [- 1, 1 / 90, 1] ! i \<longrightarrow>
               xs ! i = X (last (demo_tel 1)) \<and> ys ! i = Y (last (demo_tel 1))
               \<and> ss ! i = Speed (last (demo_tel 1)))"
    by blast
  have b0: "xs ! 0 = 0" using b [rule_format, of 0] unfolding m by simp
  have b1: "0 \<le> xs ! 1 \<and> xs ! 1 \<le> 3 \<and> 100 \<le> ss ! 1 \<and> ss ! 1 \<le> 120"
    using b [rule_format, of 1] unfolding m by simp
  have b2: "xs ! 2 = 3" using b [rule_format, of 2] unfolding m by simp
  from h1 h2 r b0 b1 b2 show ?thesis by blast
qed

section \<open>Loading\<close>

subsection \<open>The distance loop\<close>

lemma distance_loop_inv:
  "k \<le> n \<Longrightarrow> 1 \<le> k \<Longrightarrow>
   (let cd = fold (distance_step x y) [1 ..< k] (replicate n 0) in
      length cd = n \<and> cd ! 0 = 0
      \<and> (\<forall>i. 0 < i \<and> i < k \<longrightarrow> cd ! i = cd ! (i - 1) + seg x y i)
      \<and> (\<forall>i. k \<le> i \<and> i < n \<longrightarrow> cd ! i = 0))"
proof (induction k)
  case 0
  then show ?case by simp
next
  case (Suc k)
  show ?case
  proof (cases "k = 0")
    case True
    with Suc.prems show ?thesis by (cases n) (auto simp add: Let_def)
  next
    case False
    then have k1: "1 \<le> k" by simp
    have kn: "k \<le> n" "k < n" using Suc.prems by auto
    define cd where "cd = fold (distance_step x y) [1 ..< k] (replicate n 0)"
    have ih: "length cd = n" "cd ! 0 = 0"
      "\<And>i. 0 < i \<Longrightarrow> i < k \<Longrightarrow> cd ! i = cd ! (i - 1) + seg x y i"
      "\<And>i. k \<le> i \<Longrightarrow> i < n \<Longrightarrow> cd ! i = 0"
      using Suc.IH [OF kn(1) k1] by (simp_all add: Let_def cd_def)
    have up: "[1 ..< Suc k] = [1 ..< k] @ [k]" using k1 by simp
    have step: "fold (distance_step x y) [1 ..< Suc k] (replicate n 0)
                  = cd[k := cd ! (k - 1) + seg x y k]"
      unfolding up by (simp add: cd_def distance_step_def seg_def Let_def)
    show ?thesis
      unfolding step Let_def
    proof (intro conjI allI impI)
      show "length (cd[k := cd ! (k - 1) + seg x y k]) = n" using ih(1) by simp
      show "cd[k := cd ! (k - 1) + seg x y k] ! 0 = 0" using ih(2) False by simp
    next
      fix i assume i: "0 < i \<and> i < Suc k"
      show "cd[k := cd ! (k - 1) + seg x y k] ! i
              = cd[k := cd ! (k - 1) + seg x y k] ! (i - 1) + seg x y i"
      proof (cases "i = k")
        case True
        then show ?thesis using ih(1) kn False by simp
      next
        case F: False
        with i have "i < k" by simp
        then show ?thesis using ih(3) [of i] i by simp
      qed
    next
      fix i assume "Suc k \<le> i \<and> i < n"
      then show "cd[k := cd ! (k - 1) + seg x y k] ! i = 0" using ih(4) [of i] by simp
    qed
  qed
qed

lemma cumulative_distances_ok:
  assumes "length y = length x"
  shows "\<exists>cd. cumulative_distances_of x y = Inr cd \<and> length cd = length x
     \<and> (x \<noteq> [] \<longrightarrow> cd ! 0 = 0)
     \<and> (\<forall>i. 0 < i \<and> i < length x \<longrightarrow> cd ! i = cd ! (i - 1) + seg x y i)"
proof (cases "x = []")
  case True
  then show ?thesis using assms by (simp add: cumulative_distances_of_def)
next
  case False
  then have "1 \<le> length x" by (cases x) auto
  from distance_loop_inv [OF le_refl this, of x y]
  show ?thesis using assms by (simp add: cumulative_distances_of_def Let_def)
qed

subsection \<open>The two loops over the drivers\<close>

lemma map_fst_prefetch: "map fst (prefetch rows) = filter usable rows"
  by (induction rows) (auto simp add: usable_def split: telemetry.splits)

lemma prefetch_nonempty_tel:
  "(row, tel) \<in> set (prefetch rows) \<Longrightarrow>
     tel \<noteq> [] \<and> get_telemetry row = Telemetry tel \<and> row \<in> set rows"
  by (induction rows) (auto split: telemetry.splits if_splits)

lemma prefetch_snd_nonempty: "\<forall>p\<in>set (prefetch rows). snd p \<noteq> []"
  using prefetch_nonempty_tel by auto

lemma prefetch_empty_iff: "prefetch rows = [] \<longleftrightarrow> (\<forall>row\<in>set rows. \<not> usable row)"
proof -
  have "prefetch rows = [] \<longleftrightarrow> map fst (prefetch rows) = []" by simp
  also have "\<dots> \<longleftrightarrow> filter usable rows = []" by (simp only: map_fst_prefetch)
  also have "\<dots> \<longleftrightarrow> (\<forall>row\<in>set rows. \<not> usable row)" by (simp add: filter_empty_conv)
  finally show ?thesis .
qed

lemma make_data_ok:
  assumes "tel \<noteq> []"
  shows "\<exists>d. make_data ts row tel = Inr d
     \<and> Driver d = lap_Driver row
     \<and> X_interp d = map (interp1 (map Time tel) (map X tel)) ts
     \<and> Y_interp d = map (interp1 (map Time tel) (map Y tel)) ts
     \<and> Speed_interp d = map (interp1 (map Time tel) (map Speed tel)) ts
     \<and> length (CumulativeDistance d) = length ts
     \<and> (ts \<noteq> [] \<longrightarrow> CumulativeDistance d ! 0 = 0)
     \<and> (\<forall>i. 0 < i \<and> i < length ts \<longrightarrow>
           CumulativeDistance d ! i
             = CumulativeDistance d ! (i - 1) + seg (X_interp d) (Y_interp d) i)"
proof -
  let ?x = "map (interp1 (map Time tel) (map X tel)) ts"
  let ?y = "map (interp1 (map Time tel) (map Y tel)) ts"
  have "length ?y = length ?x" by simp
  from cumulative_distances_ok [OF this]
  obtain cd where cd: "cumulative_distances_of ?x ?y = Inr cd" "length cd = length ?x"
    "?x \<noteq> [] \<longrightarrow> cd ! 0 = 0"
    "\<forall>i. 0 < i \<and> i < length ?x \<longrightarrow> cd ! i = cd ! (i - 1) + seg ?x ?y i"
    by blast
  show ?thesis
    using cd by (simp add: make_data_def interpolate_telemetry_ok [OF assms])
qed

lemma store_all_ok:
  assumes "\<forall>p\<in>set rs. snd p \<noteq> []"
  shows "\<exists>g'. store_all g rs = Inr g'
     \<and> times g' = times g \<and> total_seconds g' = total_seconds g
     \<and> all_interpolated_data g'
         = all_interpolated_data g @ map (\<lambda>p. projr (make_data (times g) (fst p) (snd p))) rs"
  using assms
proof (induction rs arbitrary: g)
  case Nil
  then show ?case by simp
next
  case (Cons p rs)
  obtain row tel where p: "p = (row, tel)" by (cases p)
  with Cons.prems have "tel \<noteq> []" by simp
  from make_data_ok [OF this, of "times g" row]
  obtain d where d: "make_data (times g) row tel = Inr d" by blast
  let ?g = "g\<lparr> all_interpolated_data := all_interpolated_data g @ [d],
                all_lap_telemetry :=
                  (all_lap_telemetry g)((lap_Driver row, lap_LapNumber row) \<mapsto> d) \<rparr>"
  have "\<forall>p\<in>set rs. snd p \<noteq> []" using Cons.prems by simp
  from Cons.IH [OF this, of ?g]
  obtain g' where g': "store_all ?g rs = Inr g'" "times g' = times g"
    "total_seconds g' = total_seconds g"
    "all_interpolated_data g'
       = (all_interpolated_data g @ [d])
         @ map (\<lambda>p. projr (make_data (times g) (fst p) (snd p))) rs"
    by auto
  show ?case using g' d p by simp
qed

lemma load_no_laps:
  "valid_laps laps = [] \<Longrightarrow>
     load_and_synchronize_data g laps = Inl (ValueError ''No valid laps found in session data.'')"
  by (simp add: load_and_synchronize_data_def)

lemma load_no_telemetry:
  "valid_laps laps \<noteq> [] \<Longrightarrow> prefetch (drivers_to_track laps) = [] \<Longrightarrow>
     load_and_synchronize_data g laps
       = Inl (ValueError ''No valid telemetry data found for the top drivers.'')"
  by (simp add: load_and_synchronize_data_def)

lemma load_ok:
  assumes "valid_laps laps \<noteq> []" and "prefetch (drivers_to_track laps) \<noteq> []"
  shows "\<exists>g'. load_and_synchronize_data g laps = Inr g'
     \<and> total_seconds g'
         = timedelta_total_seconds
             (Max (set (map (\<lambda>(row, tel). max_time tel) (prefetch (drivers_to_track laps)))))
     \<and> times g' = np_arange (total_seconds g') (1 / FPS)
     \<and> all_interpolated_data g'
         = all_interpolated_data g
           @ map (\<lambda>p. projr (make_data (times g') (fst p) (snd p)))
               (prefetch (drivers_to_track laps))
     \<and> current_drivers_data g' = all_interpolated_data g'"
proof -
  let ?rs = "prefetch (drivers_to_track laps)"
  let ?secs = "timedelta_total_seconds (Max (set (map (\<lambda>(row, tel). max_time tel) ?rs)))"
  let ?g1 = "g\<lparr> total_seconds := ?secs, times := np_arange ?secs (1 / FPS) \<rparr>"
  from store_all_ok [OF prefetch_snd_nonempty, where g = ?g1 and rows1 = "drivers_to_track laps"]
  obtain g2 where g2: "store_all ?g1 ?rs = Inr g2" "times g2 = times ?g1"
    "total_seconds g2 = total_seconds ?g1"
    "all_interpolated_data g2
       = all_interpolated_data ?g1
         @ map (\<lambda>p. projr (make_data (times ?g1) (fst p) (snd p))) ?rs"
    by blast
  have ne: "all_interpolated_data g2 \<noteq> []" using g2(4) assms(2) by simp
  have "load_and_synchronize_data g laps
          = Inr (g2\<lparr> current_drivers_data := all_interpolated_data g2 \<rparr>)"
    using assms g2(1) ne by (simp add: load_and_synchronize_data_def Let_def)
  then show ?thesis using g2 by simp
qed

lemma load_Inr_cases:
  assumes "load_and_synchronize_data g laps = Inr g'"
  shows "valid_laps laps \<noteq> [] \<and> prefetch (drivers_to_track laps) \<noteq> []"
  using assms load_no_laps [of laps g] load_no_telemetry [of laps g] by auto

lemma drivers_to_track_demo:
  "drivers_to_track demo_laps =
     [demo_lap ''VER'' (Some 71) (Telemetry (demo_tel 1)),
      demo_lap ''ALO'' (Some 72) (Telemetry (demo_tel 2)),
      demo_lap ''LEC'' (Some 73) Raises,
      demo_lap ''OCO'' (Some 74) (Telemetry (demo_tel 3)),
      demo_lap ''SAI'' (Some 75) (Telemetry (demo_tel 4))]"
  by (simp add: drivers_to_track_def valid_laps_def fastest_laps_def demo_laps_def demo_lap_def
        NUM_DRIVERS_def lap_seconds_def)

lemma valid_laps_demo: "valid_laps demo_laps \<noteq> []"
  by (simp add: valid_laps_def demo_laps_def demo_lap_def)

lemma prefetch_demo:
  "prefetch (drivers_to_track demo_laps) =
     [(demo_lap ''VER'' (Some 71) (Telemetry (demo_tel 1)), demo_tel 1),
      (demo_lap ''ALO'' (Some 72) (Telemetry (demo_tel 2)), demo_tel 2),
      (demo_lap ''OCO'' (Some 74) (Telemetry (demo_tel 3)), demo_tel 3),
      (demo_lap ''SAI'' (Some 75) (Telemetry (demo_tel 4)), demo_tel 4)]"
  unfolding drivers_to_track_demo by (simp add: demo_lap_def demo_tel_def)

subsection \<open>Skipped drivers and fatal errors\<close>

lemma roster_drivers:
  assumes "valid_laps laps \<noteq> []" and "prefetch (drivers_to_track laps) \<noteq> []"
  shows "\<exists>g. load_and_synchronize_data init_globals laps = Inr g
     \<and> map Driver (all_interpolated_data g)
         = map lap_Driver (filter usable (drivers_to_track laps))"
proof -
  from load_ok [OF assms, of init_globals]
  obtain g where g: "load_and_synchronize_data init_globals laps = Inr g"
    "all_interpolated_data g
       = all_interpolated_data init_globals
         @ map (\<lambda>p. projr (make_data (times g) (fst p) (snd p)))
             (prefetch (drivers_to_track laps))"
    by blast
  have "Driver (projr (make_data (times g) (fst p) (snd p))) = lap_Driver (fst p)"
    if "p \<in> set (prefetch (drivers_to_track laps))" for p
  proof -
    have "snd p \<noteq> []" using that prefetch_snd_nonempty by blast
    from make_data_ok [OF this, of "times g" "fst p"] show ?thesis by auto
  qed
  then have "map Driver (all_interpolated_data g)
               = map lap_Driver (map fst (prefetch (drivers_to_track laps)))"
    unfolding g(2) by (simp add: init_globals_def)
  with g(1) show ?thesis by (simp add: map_fst_prefetch)
qed

text \<open>
  Claim C5. The load, started from the module's initial state, ends in one of three ways. When
  no lap of the session has a lap time it raises the error of line 67. When there are such laps
  and no candidate has usable telemetry it raises the error of line 97. When some candidate has
  usable telemetry it returns, and the drivers of the roster are the candidates with usable
  telemetry, in the candidates' order: the others are skipped. So an error is raised exactly
  when there is no valid lap or no candidate with usable telemetry, and with five candidates of
  which exactly one has no usable telemetry the load returns a roster of four.
\<close>

theorem load_skips_and_fails:
  "(valid_laps laps = [] \<longrightarrow>
      load_and_synchronize_data init_globals laps
        = Inl (ValueError ''No valid laps found in session data.''))
   \<and> (valid_laps laps \<noteq> [] \<and> (\<forall>row\<in>set (drivers_to_track laps). \<not> usable row) \<longrightarrow>
      load_and_synchronize_data init_globals laps
        = Inl (ValueError ''No valid telemetry data found for the top drivers.''))
   \<and> (valid_laps laps \<noteq> [] \<and> (\<exists>row\<in>set (drivers_to_track laps). usable row) \<longrightarrow>
      (\<exists>g. load_and_synchronize_data init_globals laps = Inr g
         \<and> map Driver (all_interpolated_data g)
             = map lap_Driver (filter usable (drivers_to_track laps))))
   \<and> (isl (load_and_synchronize_data init_globals laps) \<longleftrightarrow>
        valid_laps laps = [] \<or> (\<forall>row\<in>set (drivers_to_track laps). \<not> usable row))
   \<and> (length (drivers_to_track laps) = 5
        \<and> length (filter (\<lambda>row. \<not> usable row) (drivers_to_track laps)) = 1 \<longrightarrow>
      (\<exists>g. load_and_synchronize_data init_globals laps = Inr g
         \<and> length (all_interpolated_data g) = 4))"
proof -
  let ?load = "load_and_synchronize_data init_globals laps"
  let ?cand = "drivers_to_track laps"
  have a: "valid_laps laps = [] \<longrightarrow>
             ?load = Inl (ValueError ''No valid laps found in session data.'')"
    by (simp add: load_no_laps)
  have b: "valid_laps laps \<noteq> [] \<and> (\<forall>row\<in>set ?cand. \<not> usable row) \<longrightarrow>
             ?load = Inl (ValueError ''No valid telemetry data found for the top drivers.'')"
    by (simp add: load_no_telemetry prefetch_empty_iff)
  have c: "valid_laps laps \<noteq> [] \<and> (\<exists>row\<in>set ?cand. usable row) \<longrightarrow>
      (\<exists>g. ?load = Inr g
         \<and> map Driver (all_interpolated_data g) = map lap_Driver (filter usable ?cand))"
  proof
    assume h: "valid_laps laps \<noteq> [] \<and> (\<exists>row\<in>set ?cand. usable row)"
    then have "prefetch ?cand \<noteq> []" by (simp add: prefetch_empty_iff)
    with h show "\<exists>g. ?load = Inr g
         \<and> map Driver (all_interpolated_data g) = map lap_Driver (filter usable ?cand)"
      using roster_drivers by blast
  qed
  have d: "isl ?load \<longleftrightarrow> valid_laps laps = [] \<or> (\<forall>row\<in>set ?cand. \<not> usable row)"
  proof (cases "valid_laps laps = [] \<or> (\<forall>row\<in>set ?cand. \<not> usable row)")
    case True
    then show ?thesis using a b by auto
  next
    case False
    then obtain g where "?load = Inr g" using c by blast
    with False show ?thesis by simp
  qed
  have e: "length ?cand = 5 \<and> length (filter (\<lambda>row. \<not> usable row) ?cand) = 1 \<longrightarrow>
      (\<exists>g. ?load = Inr g \<and> length (all_interpolated_data g) = 4)"
  proof
    assume h: "length ?cand = 5 \<and> length (filter (\<lambda>row. \<not> usable row) ?cand) = 1"
    have "length (filter usable ?cand) + length (filter (\<lambda>row. \<not> usable row) ?cand)
            = length ?cand"
      by (rule sum_length_filter_compl)
    with h have four: "length (filter usable ?cand) = 4" by simp
    then have ex: "\<exists>row\<in>set ?cand. usable row"
      by (metis filter_False length_0_conv zero_neq_numeral)
    have "?cand \<noteq> []" using h by auto
    then have "valid_laps laps \<noteq> []" by (auto simp add: drivers_to_track_def fastest_laps_def)
    with ex c obtain g where g: "?load = Inr g"
      "map Driver (all_interpolated_data g) = map lap_Driver (filter usable ?cand)"
      by blast
    have "length (all_interpolated_data g) = length (map Driver (all_interpolated_data g))"
      by simp
    also have "\<dots> = 4" unfolding g(2) using four by simp
    finally show "\<exists>g. ?load = Inr g \<and> length (all_interpolated_data g) = 4"
      using g(1) by blast
  qed
  from a b c d e show ?thesis by (intro conjI)
qed

lemma usable_demo:
  "filter usable (drivers_to_track demo_laps) =
     [demo_lap ''VER'' (Some 71) (Telemetry (demo_tel 1)),
      demo_lap ''ALO'' (Some 72) (Telemetry (demo_tel 2)),
      demo_lap ''OCO'' (Some 74) (Telemetry (demo_tel 3)),
      demo_lap ''SAI'' (Some 75) (Telemetry (demo_tel 4))]"
  "filter (\<lambda>row. \<not> usable row) (drivers_to_track demo_laps) = [demo_lap ''LEC'' (Some 73) Raises]"
  unfolding drivers_to_track_demo by (simp_all add: usable_def demo_lap_def demo_tel_def)

theorem load_skips_and_fails_witness:
  "valid_laps demo_laps \<noteq> []
   \<and> length (drivers_to_track demo_laps) = 5
   \<and> length (filter (\<lambda>row. \<not> usable row) (drivers_to_track demo_laps)) = 1
   \<and> \<not> isl (load_and_synchronize_data init_globals demo_laps)
   \<and> (\<exists>g. load_and_synchronize_data init_globals demo_laps = Inr g
         \<and> length (all_interpolated_data g) = 4
         \<and> map Driver (all_interpolated_data g) = [''VER'', ''ALO'', ''OCO'', ''SAI''])"
proof -
  note t = load_skips_and_fails [of demo_laps]
  have h1: "valid_laps demo_laps \<noteq> []" by (rule valid_laps_demo)
  have h2: "length (drivers_to_track demo_laps) = 5" by (simp add: drivers_to_track_demo)
  have h3: "length (filter (\<lambda>row. \<not> usable row) (drivers_to_track demo_laps)) = 1"
    by (simp add: usable_demo)
  have u: "\<exists>row\<in>set (drivers_to_track demo_laps). usable row"
    using usable_demo(1) by (metis filter_False list.discI)
  from t h1 u obtain g where g: "load_and_synchronize_data init_globals demo_laps = Inr g"
    "map Driver (all_interpolated_data g)
       = map lap_Driver (filter usable (drivers_to_track demo_laps))"
    by blast
  have n: "map Driver (all_interpolated_data g) = [''VER'', ''ALO'', ''OCO'', ''SAI'']"
    unfolding g(2) usable_demo by (simp add: demo_lap_def)
  then have "length (map Driver (all_interpolated_data g)) = 4" by simp
  then have l: "length (all_interpolated_data g) = 4" by simp
  have i: "\<not> isl (load_and_synchronize_data init_globals demo_laps)" using g(1) by simp
  have ex: "\<exists>g. load_and_synchronize_data init_globals demo_laps = Inr g
         \<and> length (all_interpolated_data g) = 4
         \<and> map Driver (all_interpolated_data g) = [''VER'', ''ALO'', ''OCO'', ''SAI'']"
    using g(1) l n by (intro exI conjI)
  from h1 h2 h3 i ex show ?thesis by (intro conjI)
qed

subsection \<open>The shared timeline\<close>

lemma length_np_arange: "length (np_arange stop step) = nat \<lceil>stop / step\<rceil>"
  by (simp add: np_arange_def)

lemma nth_np_arange:
  "i < length (np_arange stop step) \<Longrightarrow> np_arange stop step ! i = real i * step"
  by (simp add: np_arange_def)

lemma np_arange_shape:
  shows "length (np_arange d (1 / FPS)) = nat \<lceil>d * FPS\<rceil>"
    and "\<forall>i. i < length (np_arange d (1 / FPS)) \<longrightarrow>
           np_arange d (1 / FPS) ! i = real i / FPS \<and> np_arange d (1 / FPS) ! i < d"
    and "\<forall>i. Suc i < length (np_arange d (1 / FPS)) \<longrightarrow>
           np_arange d (1 / FPS) ! Suc i - np_arange d (1 / FPS) ! i = 1 / FPS"
proof -
  show len: "length (np_arange d (1 / FPS)) = nat \<lceil>d * FPS\<rceil>"
    by (simp add: length_np_arange)
  show "\<forall>i. i < length (np_arange d (1 / FPS)) \<longrightarrow>
          np_arange d (1 / FPS) ! i = real i / FPS \<and> np_arange d (1 / FPS) ! i < d"
  proof (intro allI impI)
    fix i assume i: "i < length (np_arange d (1 / FPS))"
    then have "int i < \<lceil>d * FPS\<rceil>" using len by simp
    then have "real i < d * FPS" by (simp add: less_ceiling_iff)
    then have "real i / FPS < d" by (simp add: FPS_def)
    then show "np_arange d (1 / FPS) ! i = real i / FPS \<and> np_arange d (1 / FPS) ! i < d"
      using i by (simp add: nth_np_arange)
  qed
  show "\<forall>i. Suc i < length (np_arange d (1 / FPS)) \<longrightarrow>
          np_arange d (1 / FPS) ! Suc i - np_arange d (1 / FPS) ! i = 1 / FPS"
    by (simp add: nth_np_arange algebra_simps)
qed

lemma np_arange_positive:
  assumes "0 < d"
  shows "int (length (np_arange d (1 / FPS))) = \<lceil>d * FPS\<rceil>"
    and "np_arange d (1 / FPS) \<noteq> []"
    and "np_arange d (1 / FPS) ! 0 = 0"
proof -
  have pos: "0 < d * FPS" using assms by (simp add: FPS_def)
  then have c: "0 < \<lceil>d * FPS\<rceil>" by (simp add: ceiling_less_iff)
  have len: "length (np_arange d (1 / FPS)) = nat \<lceil>d * FPS\<rceil>"
    by (simp add: length_np_arange)
  show "int (length (np_arange d (1 / FPS))) = \<lceil>d * FPS\<rceil>" using c len by simp
  have "0 < length (np_arange d (1 / FPS))" using c len by simp
  then show ne: "np_arange d (1 / FPS) \<noteq> []" by auto
  then show "np_arange d (1 / FPS) ! 0 = 0" by (simp add: nth_np_arange)
qed

lemma np_arange_not_positive:
  assumes "d \<le> 0"
  shows "np_arange d (1 / FPS) = []"
proof -
  have "d * FPS \<le> 0" using assms by (simp add: FPS_def mult_le_0_iff)
  then have "\<lceil>d * FPS\<rceil> \<le> 0" by (simp add: ceiling_le_iff)
  then show ?thesis by (simp add: np_arange_def)
qed

lemma timedelta_total_seconds_le: "timedelta_total_seconds t \<le> t"
proof -
  have "real_of_int \<lfloor>t * 10 ^ 6\<rfloor> \<le> t * 10 ^ 6" by (rule of_int_floor_le)
  then show ?thesis by (simp add: timedelta_total_seconds_def field_simps)
qed

text \<open>
  Claim C3, as the code has it. After a load that returns, the duration is the greatest of the
  last raw timestamps of the drivers that were not skipped, with the digits below a microsecond
  dropped, so it is not greater than that timestamp. The timeline has \<open>\<lceil>duration * FPS\<rceil>\<close>
  timestamps, none when that is not positive. Its \<open>i\<close>-th timestamp is \<open>i / FPS\<close> and is less
  than the duration, and neighbours are \<open>1 / FPS\<close> apart. When the duration is positive the
  timeline is not empty and starts at 0; when the duration is 0 or less the timeline is empty.
\<close>

theorem timeline_shape:
  assumes "load_and_synchronize_data init_globals laps = Inr g"
  shows "total_seconds g
           = timedelta_total_seconds
               (Max (set (map (\<lambda>(row, tel). max_time tel) (prefetch (drivers_to_track laps)))))
     \<and> total_seconds g
           \<le> Max (set (map (\<lambda>(row, tel). max_time tel) (prefetch (drivers_to_track laps))))
     \<and> length (times g) = nat \<lceil>total_seconds g * FPS\<rceil>
     \<and> (\<forall>i. i < length (times g) \<longrightarrow>
           times g ! i = real i / FPS \<and> times g ! i < total_seconds g)
     \<and> (\<forall>i. Suc i < length (times g) \<longrightarrow> times g ! Suc i - times g ! i = 1 / FPS)
     \<and> (0 < total_seconds g \<longrightarrow>
           int (length (times g)) = \<lceil>total_seconds g * FPS\<rceil>
           \<and> times g \<noteq> [] \<and> times g ! 0 = 0)
     \<and> (total_seconds g \<le> 0 \<longrightarrow> times g = [])"
proof -
  from load_Inr_cases [OF assms(1)]
  have "valid_laps laps \<noteq> []" "prefetch (drivers_to_track laps) \<noteq> []" by simp_all
  from load_ok [OF this, of init_globals] assms(1)
  have s: "total_seconds g
             = timedelta_total_seconds
                 (Max (set (map (\<lambda>(row, tel). max_time tel)
                              (prefetch (drivers_to_track laps)))))"
    and t: "times g = np_arange (total_seconds g) (1 / FPS)"
    by auto
  have le: "total_seconds g
              \<le> Max (set (map (\<lambda>(row, tel). max_time tel) (prefetch (drivers_to_track laps))))"
    unfolding s by (rule timedelta_total_seconds_le)
  note sh = np_arange_shape [of "total_seconds g"]
  have p: "0 < total_seconds g \<longrightarrow>
           int (length (times g)) = \<lceil>total_seconds g * FPS\<rceil>
           \<and> times g \<noteq> [] \<and> times g ! 0 = 0"
    unfolding t [symmetric] using np_arange_positive [of "total_seconds g"] t by simp
  have z: "total_seconds g \<le> 0 \<longrightarrow> times g = []"
    using np_arange_not_positive [of "total_seconds g"] t by simp
  from s le sh p z show ?thesis unfolding t [symmetric] by (intro conjI)
qed

lemma max_time_demo: "max_time (demo_tel v) = 1 / 45"
  by (simp add: max_time_def demo_tel_def)

lemma load_demo:
  "\<exists>g. load_and_synchronize_data init_globals demo_laps = Inr g
     \<and> total_seconds g = 11111 / 500000
     \<and> all_interpolated_data g
         = map (\<lambda>p. projr (make_data (times g) (fst p) (snd p)))
             (prefetch (drivers_to_track demo_laps))"
proof -
  have ne: "prefetch (drivers_to_track demo_laps) \<noteq> []" by (simp add: prefetch_demo)
  from load_ok [OF valid_laps_demo ne, of init_globals]
  obtain g where g: "load_and_synchronize_data init_globals demo_laps = Inr g"
    "total_seconds g
       = timedelta_total_seconds
           (Max (set (map (\<lambda>(row, tel). max_time tel)
                        (prefetch (drivers_to_track demo_laps)))))"
    "all_interpolated_data g
       = all_interpolated_data init_globals
         @ map (\<lambda>p. projr (make_data (times g) (fst p) (snd p)))
             (prefetch (drivers_to_track demo_laps))"
    by blast
  have "total_seconds g = 11111 / 500000"
    unfolding g(2) prefetch_demo by (simp add: max_time_demo timedelta_total_seconds_def)
  moreover have "all_interpolated_data g
         = map (\<lambda>p. projr (make_data (times g) (fst p) (snd p)))
             (prefetch (drivers_to_track demo_laps))"
    using g(3) by (simp add: init_globals_def)
  ultimately show ?thesis using g(1) by blast
qed

theorem timeline_shape_witness:
  "\<exists>g. load_and_synchronize_data init_globals demo_laps = Inr g
     \<and> 0 < total_seconds g
     \<and> total_seconds g = 22222 / 10 ^ 6
     \<and> length (times g) = 2
     \<and> times g ! 0 = 0
     \<and> times g ! 1 = 1 / 90
     \<and> times g ! 1 < total_seconds g"
proof -
  from load_demo obtain g where g: "load_and_synchronize_data init_globals demo_laps = Inr g"
    "total_seconds g = 11111 / 500000"
    by blast
  have p: "0 < total_seconds g" using g(2) by simp
  have q: "total_seconds g = 22222 / 10 ^ 6" using g(2) by simp
  note t = timeline_shape [OF g(1)]
  have "length (times g) = nat \<lceil>total_seconds g * FPS\<rceil>" using t by blast
  then have l: "length (times g) = 2" unfolding g(2) by (simp add: FPS_def)
  have z: "times g ! 0 = 0" using t p by blast
  have "1 < length (times g) \<longrightarrow> times g ! 1 = real 1 / FPS \<and> times g ! 1 < total_seconds g"
    using t by blast
  then have o: "times g ! 1 = 1 / 90" "times g ! 1 < total_seconds g"
    using l by (simp_all add: FPS_def)
  from g(1) p q l z o show ?thesis by (intro exI conjI)
qed

text \<open>
  The claim as the specification words it has the timeline start at 0 for every duration. The
  session of one lap whose telemetry is the single sample at time 0 loads without an error,
  with duration 0 and with a timeline that has no timestamp at all.
\<close>

theorem empty_timeline_counterexample:
  "\<not> isl (load_and_synchronize_data init_globals zero_laps)
   \<and> total_seconds (projr (load_and_synchronize_data init_globals zero_laps)) = 0
   \<and> times (projr (load_and_synchronize_data init_globals zero_laps)) = []"
proof -
  have d: "drivers_to_track zero_laps = zero_laps"
    by (simp add: drivers_to_track_def valid_laps_def fastest_laps_def zero_laps_def
          demo_lap_def NUM_DRIVERS_def)
  show ?thesis
    unfolding load_and_synchronize_data_def d
    by (simp add: valid_laps_def zero_laps_def demo_lap_def max_time_def np_arange_def
          make_data_def interpolate_telemetry_def np_interp_def cumulative_distances_of_def
          init_globals_def timedelta_total_seconds_def Let_def)
qed

text \<open>
  The digits below a microsecond count: with a last raw timestamp of 11111112 nanoseconds the
  duration is 0.011111 seconds, less than \<open>1 / FPS\<close>, and the timeline has one timestamp, where
  the timestamp itself would give two.
\<close>

lemma timeline_drops_nanoseconds:
  "timedelta_total_seconds (11111112 / 10 ^ 9) = 11111 / 10 ^ 6
   \<and> length (np_arange (timedelta_total_seconds (11111112 / 10 ^ 9)) (1 / FPS)) = 1
   \<and> length (np_arange (11111112 / 10 ^ 9) (1 / FPS)) = 2"
  by (simp add: timedelta_total_seconds_def np_arange_def FPS_def)

subsection \<open>Cumulative distance\<close>

lemma seg_nonneg: "0 \<le> seg x y i"
  by (simp add: seg_def)

text \<open>
  Claim C1. After a load that returns, every record of the roster has position and distance
  arrays of the length of the timeline. The first cumulative distance, when the timeline has a
  timestamp at all, is 0, and for every index \<open>i\<close> from 1 to the last the cumulative distance at
  \<open>i\<close> is the one at \<open>i - 1\<close> plus the Euclidean distance between the interpolated positions
  at \<open>i - 1\<close> and \<open>i\<close>; so it is not less than the one at \<open>i - 1\<close>.
\<close>

theorem cumulative_distance_recurrence:
  assumes "load_and_synchronize_data init_globals laps = Inr g"
    and "d \<in> set (all_interpolated_data g)"
  shows "length (X_interp d) = length (times g)
     \<and> length (Y_interp d) = length (times g)
     \<and> length (CumulativeDistance d) = length (times g)
     \<and> (times g \<noteq> [] \<longrightarrow> CumulativeDistance d ! 0 = 0)
     \<and> (\<forall>i. 0 < i \<and> i < length (times g) \<longrightarrow>
           CumulativeDistance d ! i
             = CumulativeDistance d ! (i - 1)
               + sqrt ((X_interp d ! i - X_interp d ! (i - 1))\<^sup>2
                       + (Y_interp d ! i - Y_interp d ! (i - 1))\<^sup>2)
         \<and> CumulativeDistance d ! (i - 1) \<le> CumulativeDistance d ! i)"
proof -
  from load_Inr_cases [OF assms(1)]
  have "valid_laps laps \<noteq> []" "prefetch (drivers_to_track laps) \<noteq> []" by simp_all
  from load_ok [OF this, of init_globals] assms(1)
  have "all_interpolated_data g
          = all_interpolated_data init_globals
            @ map (\<lambda>p. projr (make_data (times g) (fst p) (snd p)))
                (prefetch (drivers_to_track laps))"
    by auto
  then have "all_interpolated_data g
          = map (\<lambda>p. projr (make_data (times g) (fst p) (snd p)))
              (prefetch (drivers_to_track laps))"
    by (simp add: init_globals_def)
  with assms(2) obtain p where p: "p \<in> set (prefetch (drivers_to_track laps))"
    "d = projr (make_data (times g) (fst p) (snd p))"
    by auto
  have "snd p \<noteq> []" using p(1) prefetch_snd_nonempty by blast
  from make_data_ok [OF this, of "times g" "fst p"] p(2)
  have x: "X_interp d = map (interp1 (map Time (snd p)) (map X (snd p))) (times g)"
    and y: "Y_interp d = map (interp1 (map Time (snd p)) (map Y (snd p))) (times g)"
    and l: "length (CumulativeDistance d) = length (times g)"
    and z: "times g \<noteq> [] \<longrightarrow> CumulativeDistance d ! 0 = 0"
    and r: "\<forall>i. 0 < i \<and> i < length (times g) \<longrightarrow>
           CumulativeDistance d ! i
             = CumulativeDistance d ! (i - 1) + seg (X_interp d) (Y_interp d) i"
    by auto
  have lx: "length (X_interp d) = length (times g)" unfolding x by simp
  have ly: "length (Y_interp d) = length (times g)" unfolding y by simp
  have s: "\<forall>i. 0 < i \<and> i < length (times g) \<longrightarrow>
           CumulativeDistance d ! i
             = CumulativeDistance d ! (i - 1)
               + sqrt ((X_interp d ! i - X_interp d ! (i - 1))\<^sup>2
                       + (Y_interp d ! i - Y_interp d ! (i - 1))\<^sup>2)
         \<and> CumulativeDistance d ! (i - 1) \<le> CumulativeDistance d ! i"
  proof (intro allI impI)
    fix i assume i: "0 < i \<and> i < length (times g)"
    with r have e: "CumulativeDistance d ! i
             = CumulativeDistance d ! (i - 1) + seg (X_interp d) (Y_interp d) i"
      by blast
    have "CumulativeDistance d ! (i - 1) \<le> CumulativeDistance d ! i"
      unfolding e using seg_nonneg [of "X_interp d" "Y_interp d" i] by simp
    with e show "CumulativeDistance d ! i
             = CumulativeDistance d ! (i - 1)
               + sqrt ((X_interp d ! i - X_interp d ! (i - 1))\<^sup>2
                       + (Y_interp d ! i - Y_interp d ! (i - 1))\<^sup>2)
         \<and> CumulativeDistance d ! (i - 1) \<le> CumulativeDistance d ! i"
      by (simp add: seg_def)
  qed
  from lx ly l z s show ?thesis by (intro conjI)
qed

lemma sqrt_25_4: "sqrt ((3 / 2)\<^sup>2 + 2\<^sup>2) = 5 / 2"
proof -
  have "(3 / 2)\<^sup>2 + 2\<^sup>2 = ((5 / 2)\<^sup>2 :: real)" by (simp add: power2_eq_square)
  then have "sqrt ((3 / 2)\<^sup>2 + 2\<^sup>2) = \<bar>5 / 2 :: real\<bar>" by (simp only: real_sqrt_abs)
  then show ?thesis by simp
qed

theorem cumulative_distance_recurrence_witness:
  "\<exists>g d. load_and_synchronize_data init_globals demo_laps = Inr g
     \<and> d \<in> set (all_interpolated_data g)
     \<and> Driver d = ''VER''
     \<and> length (times g) = 2
     \<and> X_interp d = [0, 3 / 2]
     \<and> Y_interp d = [0, 2]
     \<and> CumulativeDistance d ! 0 = 0
     \<and> CumulativeDistance d ! 1 = 5 / 2"
proof -
  from load_demo obtain g where g: "load_and_synchronize_data init_globals demo_laps = Inr g"
    "total_seconds g = 11111 / 500000"
    "all_interpolated_data g
         = map (\<lambda>p. projr (make_data (times g) (fst p) (snd p)))
             (prefetch (drivers_to_track demo_laps))"
    by blast
  from load_Inr_cases [OF g(1)]
  have "valid_laps demo_laps \<noteq> []" "prefetch (drivers_to_track demo_laps) \<noteq> []" by simp_all
  from load_ok [OF this, of init_globals] g(1)
  have "times g = np_arange (total_seconds g) (1 / FPS)" by auto
  then have t: "times g = [0, 1 / 90]"
    unfolding g(2) by (simp add: np_arange_def FPS_def numeral_2_eq_2)
  define d where "d = projr (make_data (times g) (demo_lap ''VER'' (Some 71) (Telemetry (demo_tel 1)))
                              (demo_tel 1))"
  have m: "d \<in> set (all_interpolated_data g)"
    unfolding g(3) prefetch_demo d_def by simp
  have "demo_tel 1 \<noteq> []" by (simp add: demo_tel_def)
  from make_data_ok [OF this, of "times g" "demo_lap ''VER'' (Some 71) (Telemetry (demo_tel 1))"]
  have n: "Driver d = ''VER''"
    and x: "X_interp d = map (interp1 (map Time (demo_tel 1)) (map X (demo_tel 1))) (times g)"
    and y: "Y_interp d = map (interp1 (map Time (demo_tel 1)) (map Y (demo_tel 1))) (times g)"
    unfolding d_def by (auto simp add: demo_lap_def)
  have x': "X_interp d = [0, 3 / 2]"
    unfolding x t by (simp add: demo_tel_def interp1_def)
  have y': "Y_interp d = [0, 2]"
    unfolding y t by (simp add: demo_tel_def interp1_def)
  note c = cumulative_distance_recurrence [OF g(1) m]
  have l: "length (times g) = 2" unfolding t by simp
  have z: "CumulativeDistance d ! 0 = 0" using c t by simp
  have "0 < (1::nat) \<and> 1 < length (times g)" using l by simp
  with c have "CumulativeDistance d ! 1
             = CumulativeDistance d ! (1 - 1)
               + sqrt ((X_interp d ! 1 - X_interp d ! (1 - 1))\<^sup>2
                       + (Y_interp d ! 1 - Y_interp d ! (1 - 1))\<^sup>2)"
    by blast
  then have o: "CumulativeDistance d ! 1 = 5 / 2"
    unfolding x' y' using z sqrt_25_4 by simp
  from g(1) m n l x' y' z o show ?thesis by (intro exI conjI)
qed

section \<open>How the statements fit the running program\<close>

text \<open>
  The records that the loader builds have arrays of one length, which is what the statements
  about the gap and about seeking ask of the records of the view.
\<close>

lemma loaded_records_aligned:
  assumes "load_and_synchronize_data init_globals laps = Inr g"
    and "d \<in> set (all_interpolated_data g)"
  shows "aligned d \<and> length (X_interp d) = length (times g)"
proof -
  from load_Inr_cases [OF assms(1)]
  have "valid_laps laps \<noteq> []" "prefetch (drivers_to_track laps) \<noteq> []" by simp_all
  from load_ok [OF this, of init_globals] assms(1)
  have "all_interpolated_data g
          = all_interpolated_data init_globals
            @ map (\<lambda>p. projr (make_data (times g) (fst p) (snd p)))
                (prefetch (drivers_to_track laps))"
    by auto
  then have "all_interpolated_data g
          = map (\<lambda>p. projr (make_data (times g) (fst p) (snd p)))
              (prefetch (drivers_to_track laps))"
    by (simp add: init_globals_def)
  with assms(2) obtain p where p: "p \<in> set (prefetch (drivers_to_track laps))"
    "d = projr (make_data (times g) (fst p) (snd p))"
    by auto
  have "snd p \<noteq> []" using p(1) prefetch_snd_nonempty by blast
  from make_data_ok [OF this, of "times g" "fst p"] p(2)
  show ?thesis by (auto simp add: aligned_def)
qed

text \<open>
  In the ghost view with the records \<open>a\<close> and \<open>b\<close>, a tick that is not paused writes into the
  gap text the gap of \<open>(a, b)\<close> at the frame it ends on.
\<close>

lemma update_shows_gap:
  assumes "\<not> is_paused g" and "ghost_mode_on g" and "current_drivers_data g = [a, b]"
    and "aligned a" and "aligned b" and "slider_active g \<or> times g \<noteq> []"
  shows "\<exists>g' r. update g frame = Inr g' \<and> gap a b (nat (current_frame g')) = Inr r
           \<and> gap_text g' = Some r"
proof -
  define c where
    "c = (if slider_active g
          then max 0 (min (current_frame g) (int (length (times g)) - 1))
          else max 0 (min (frame mod int (length (times g))) (int (length (times g)) - 1)))"
  define ms where
    "ms = max (if nat c < length (X_interp a) then max 0 (Speed_interp a ! nat c) else 0)
              (if nat c < length (X_interp b) then Speed_interp b ! nat c else 0)"
  have pp: "positions (nat c) [a, b] (0, [])
              = Inr (ms, [frame_distance a (nat c), frame_distance b (nat c)])"
    unfolding ms_def by (rule positions_pair [OF assms(4,5)])
  have gp: "gap a b (nat c)
              = Inr (ghost_gap (nat c) a b ms
                       [frame_distance a (nat c), frame_distance b (nat c)])"
    by (simp add: gap_def pp del: positions.simps)
  have "\<exists>g'. update g frame = Inr g' \<and> current_frame g' = c
          \<and> gap_text g'
              = Some (ghost_gap (nat c) a b ms
                        [frame_distance a (nat c), frame_distance b (nat c)])"
  proof (cases "slider_active g")
    case True
    then have c: "max 0 (min (current_frame g) (int (length (times g)) - 1)) = c"
      by (simp add: c_def)
    show ?thesis
      using True assms(1,2,3) pp [folded c]
      by (simp add: update_def set_val_def Let_def c del: positions.simps)
  next
    case False
    then have n: "0 < int (length (times g))" using assms(6) by simp
    have m: "0 \<le> frame mod int (length (times g))"
      "frame mod int (length (times g)) < int (length (times g))"
      using n by simp_all
    then have c: "frame mod int (length (times g)) = c" using False by (simp add: c_def)
    have cl: "max 0 (min c (int (length (times g)) - 1)) = c"
      using m unfolding c by simp
    show ?thesis
      using False assms(1,2,3,6) pp
      by (simp add: update_def set_val_def Let_def c cl del: positions.simps)
  qed
  with gp show ?thesis by auto
qed

end
